theory Spec2Isabelle
  imports Complex_Main
begin

section \<open>Data model of frameProcessor.cpp\<close>

text \<open>
  \<open>cv::Point2f\<close> and \<open>cv::Point3f\<close> are tuples of \<open>float\<close> coordinates. A
  \<open>float\<close> is a binary32 number and a \<open>double\<close> a binary64 number; here both are
  the real numbers they stand for, and every arithmetic operation of the source is
  the exact operation followed by the rounding of its format (to nearest, ties to
  even, with gradual underflow). Infinities and NaN are left out: the model is the
  program as long as results stay below \<open>2 ^ 128\<close> (\<open>float\<close>) and \<open>2 ^ 1024\<close>
  (\<open>double\<close>) in magnitude, as pixel coordinates and board dimensions do.
  C \<open>int\<close> values (\<open>cv::Size\<close>, loop counters, the frame counters) are integers, read
  in the range where the source's arithmetic does not overflow.
\<close>

type_synonym Point2f = "real \<times> real"
type_synonym Point3f = "real \<times> real \<times> real"

subsection \<open>Rounding to binary32 and binary64\<close>

text \<open>
  \<open>rne q\<close> is the integer nearest to \<open>q\<close>, the even one of two equally near.
  \<open>binade x\<close> is the exponent \<open>e\<close> with \<open>2 powi e \<le> \<bar>x\<bar> < 2 powi (e + 1)\<close>. \<open>fl_round p emin\<close> rounds to
  the format with \<open>p\<close> significant bits and least normal exponent \<open>emin\<close>: to the
  nearest multiple of the unit in the last place of the binade of \<open>x\<close> (of the
  binade \<open>emin\<close> for a subnormal \<open>x\<close>).
\<close>

definition rne :: "real \<Rightarrow> int" where
  "rne q =
    (let f = \<lfloor>q\<rfloor>
     in if q - of_int f < 1 / 2 then f
        else if 1 / 2 < q - of_int f then f + 1
        else if even f then f else f + 1)"

definition binade :: "real \<Rightarrow> int" where
  "binade x = \<lfloor>log 2 \<bar>x\<bar>\<rfloor>"

definition fl_round :: "nat \<Rightarrow> int \<Rightarrow> real \<Rightarrow> real" where
  "fl_round p emin x =
    (if x = 0 then 0
     else (let ulp = 2 powi (max (binade x) emin - int p + 1)
           in of_int (rne (x / ulp)) * ulp))"

definition round32 :: "real \<Rightarrow> real" where
  "round32 = fl_round 24 (- 126)"

definition round64 :: "real \<Rightarrow> real" where
  "round64 = fl_round 53 (- 1022)"

text \<open>
  The \<open>float\<close> operations of the source: the conversion of an \<open>int\<close> operand, and
  \<open>+\<close>, \<open>-\<close>, \<open>*\<close>, \<open>/\<close> on two \<open>float\<close> operands.
\<close>

definition float_of_int :: "int \<Rightarrow> real" where
  "float_of_int n = round32 (of_int n)"

definition fadd :: "real \<Rightarrow> real \<Rightarrow> real" where
  "fadd a b = round32 (a + b)"

definition fsub :: "real \<Rightarrow> real \<Rightarrow> real" where
  "fsub a b = round32 (a - b)"

definition fmul :: "real \<Rightarrow> real \<Rightarrow> real" where
  "fmul a b = round32 (a * b)"

definition fdiv :: "real \<Rightarrow> real \<Rightarrow> real" where
  "fdiv a b = round32 (a / b)"

subsection \<open>Points and the data of the processor\<close>

text \<open>
  \<open>operator-\<close> on \<open>cv::Point2f\<close> subtracts the coordinates as \<open>float\<close>s.
  \<open>cv::norm\<close> of a \<open>cv::Point2f\<close> is
  \<open>std::sqrt((double)pt.x*pt.x + (double)pt.y*pt.y)\<close>, in \<open>double\<close>.
\<close>

definition pt_sub :: "Point2f \<Rightarrow> Point2f \<Rightarrow> Point2f" where
  "pt_sub a b = (fsub (fst a) (fst b), fsub (snd a) (snd b))"

definition cv_norm :: "Point2f \<Rightarrow> real" where
  "cv_norm p =
    round64 (sqrt (round64 (round64 (fst p * fst p) + round64 (snd p * snd p))))"

datatype TemplateType = AcirclesGrid | Chessboard | chAruco | DoubleAcirclesGrid

record Size =
  width :: int
  height :: int

text \<open>
  The members of \<open>calibrationData\<close> that \<open>CalibProcessor\<close> writes. (The camera matrix,
  the distortion coefficients and the fit error are read by \<open>ShowProcessor\<close> only.)
\<close>

record calibrationData =
  imagePoints :: "Point2f list list"
  objectPoints :: "Point3f list list"
  allCharucoCorners :: "Point2f list list"
  allCharucoIds :: "int list list"

text \<open>
  The state of a \<open>CalibProcessor\<close>. The shared dataset behind \<open>mCalibdata\<close> is held
  by value: the processor is its only writer.
\<close>

record CalibProcessor =
  mCalibdata :: calibrationData
  mBoardType :: TemplateType
  mBoardSize :: Size
  mTemplateLocations :: "Point2f list"
  mCurrentImagePoints :: "Point2f list"
  mCurrentCharucoCorners :: "Point2f list"
  mCurrentCharucoIds :: "int list"
  mCapuredFrames :: int
  mNeededFramesNum :: int

text \<open>
  A frame, seen through the OpenCV calls the processor makes on it. Each field is
  what the library call returns or writes for this frame:
  \<^item> \<open>findChessboardCorners\<close>: the return value and the corners written;
  \<^item> \<open>cornerSubPix\<close>: the refinement applied in place to the corners;
  \<^item> \<open>markerIds\<close>: the ids after \<open>detectMarkers\<close> and \<open>refineDetectedMarkers\<close>;
  \<^item> \<open>interpolateCornersCharuco\<close>: the corners and ids it writes;
  \<^item> \<open>findCirclesGrid\<close>: the asymmetric grid with the default blob detector;
  \<^item> \<open>findCirclesGridWhite\<close>, \<open>findCirclesGridBlack\<close>: the asymmetric grid with
    the custom blob detector, on the frame and on its bitwise inverse.
\<close>

record Frame =
  findChessboardCorners :: "bool \<times> Point2f list"
  cornerSubPix :: "Point2f list \<Rightarrow> Point2f list"
  markerIds :: "int list"
  interpolateCornersCharuco :: "Point2f list \<times> int list"
  findCirclesGrid :: "bool \<times> Point2f list"
  findCirclesGridWhite :: "bool \<times> Point2f list"
  findCirclesGridBlack :: "bool \<times> Point2f list"

text \<open>Reading element 0 of an empty vector is the one failure of the source.\<close>

datatype error = IndexOutOfRange

section \<open>Detection\<close>

definition detectAndParseChessboard ::
  "CalibProcessor \<Rightarrow> Frame \<Rightarrow> error + (bool \<times> CalibProcessor)" where
  "detectAndParseChessboard s frame =
    (let isTemplateFound = fst (findChessboardCorners frame);
         s1 = s\<lparr>mCurrentImagePoints := snd (findChessboardCorners frame)\<rparr>
     in if isTemplateFound then
          (let s2 = s1\<lparr>mCurrentImagePoints := cornerSubPix frame (mCurrentImagePoints s1)\<rparr>
           in case mCurrentImagePoints s2 of
                [] \<Rightarrow> Inl IndexOutOfRange
              | p # _ \<Rightarrow> Inr (isTemplateFound,
                               s2\<lparr>mTemplateLocations := p # mTemplateLocations s2\<rparr>))
        else Inr (isTemplateFound, s1))"

definition detectAndParseChAruco ::
  "CalibProcessor \<Rightarrow> Frame \<Rightarrow> error + (bool \<times> CalibProcessor)" where
  "detectAndParseChAruco s frame =
    (let ids = markerIds frame;
         currentCharucoCorners =
           (if length ids > 0 then fst (interpolateCornersCharuco frame) else []);
         currentCharucoIds =
           (if length ids > 0 then snd (interpolateCornersCharuco frame) else [])
     in if length currentCharucoCorners > 0 then
          (let centers = foldl (\<lambda>c p. (fadd (fst c) (fst p), fadd (snd c) (snd p))) (0, 0)
                        currentCharucoCorners;
               centerX = fdiv (fst centers)
                           (float_of_int (int (length currentCharucoCorners)));
               centerY = fdiv (snd centers)
                           (float_of_int (int (length currentCharucoCorners)))
           in Inr (True,
                s\<lparr>mTemplateLocations := (centerX, centerY) # mTemplateLocations s,
                  mCurrentCharucoCorners := currentCharucoCorners,
                  mCurrentCharucoIds := currentCharucoIds\<rparr>))
        else Inr (False, s))"

definition detectAndParseACircles ::
  "CalibProcessor \<Rightarrow> Frame \<Rightarrow> error + (bool \<times> CalibProcessor)" where
  "detectAndParseACircles s frame =
    (let isTemplateFound = fst (findCirclesGrid frame);
         s1 = s\<lparr>mCurrentImagePoints := snd (findCirclesGrid frame)\<rparr>
     in if isTemplateFound then
          (case mCurrentImagePoints s1 of
             [] \<Rightarrow> Inl IndexOutOfRange
           | p # _ \<Rightarrow> Inr (isTemplateFound,
                            s1\<lparr>mTemplateLocations := p # mTemplateLocations s1\<rparr>))
        else Inr (isTemplateFound, s1))"

definition detectAndParseDualACircles ::
  "CalibProcessor \<Rightarrow> Frame \<Rightarrow> error + (bool \<times> CalibProcessor)" where
  "detectAndParseDualACircles s frame =
    (let isWhiteGridFound = fst (findCirclesGridWhite frame);
         s1 = s\<lparr>mCurrentImagePoints := snd (findCirclesGridWhite frame)\<rparr>
     in if \<not> isWhiteGridFound then Inr (False, s1)
        else
          (let isBlackGridFound = fst (findCirclesGridBlack frame);
               blackPointbuf = snd (findCirclesGridBlack frame)
           in if \<not> isBlackGridFound then Inr (False, s1\<lparr>mCurrentImagePoints := []\<rparr>)
              else
                (let s2 = s1\<lparr>mCurrentImagePoints := mCurrentImagePoints s1 @ blackPointbuf\<rparr>
                 in case mCurrentImagePoints s2 of
                      [] \<Rightarrow> Inl IndexOutOfRange
                    | p # _ \<Rightarrow> Inr (True,
                                     s2\<lparr>mTemplateLocations := p # mTemplateLocations s2\<rparr>))))"

section \<open>Object points and saveFrameData\<close>

text \<open>The \<open>float\<close> literals \<open>16.3f\<close> and \<open>295.f\<close>.\<close>

definition squareSize :: real where
  "squareSize = round32 16.3"

definition acircleGrid2Distance :: real where
  "acircleGrid2Distance = round32 295"

text \<open>
  The four nested loops of \<open>saveFrameData\<close> have one shape: \<open>i\<close> runs over the rows,
  \<open>j\<close> over the columns, and each pass pushes one point to the back of
  the vector \<open>pts\<close> (\<open>objectPoints\<close> in the source). \<open>columnLoop\<close> is the inner loop at row \<open>i\<close> (the point as a
  function of \<open>j\<close>), \<open>rowLoop\<close> the outer one.
\<close>

function columnLoop ::
  "(int \<Rightarrow> Point3f) \<Rightarrow> int \<Rightarrow> int \<Rightarrow> Point3f list \<Rightarrow> Point3f list" where
  "columnLoop pt w j pts =
    (if j < w then columnLoop pt w (j + 1) (pts @ [pt j]) else pts)"
  by pat_completeness auto
termination
  by (relation "measure (\<lambda>(pt, w, j, pts). nat (w - j))") auto

function rowLoop ::
  "(int \<Rightarrow> int \<Rightarrow> Point3f) \<Rightarrow> Size \<Rightarrow> int \<Rightarrow> Point3f list \<Rightarrow> Point3f list" where
  "rowLoop pt sz i pts =
    (if i < height sz
     then rowLoop pt sz (i + 1) (columnLoop (\<lambda>j. pt j i) (width sz) 0 pts)
     else pts)"
  by pat_completeness auto
termination
  by (relation "measure (\<lambda>(pt, sz, i, pts). nat (height sz - i))") auto

declare columnLoop.simps [simp del]
declare rowLoop.simps [simp del]

text \<open>The point pushed at column \<open>j\<close> of row \<open>i\<close>, for each board type.\<close>

definition chessboardPoint :: "int \<Rightarrow> int \<Rightarrow> Point3f" where
  "chessboardPoint j i =
    (fmul (float_of_int j) squareSize, fmul (float_of_int i) squareSize, 0)"

definition acirclesPoint :: "int \<Rightarrow> int \<Rightarrow> Point3f" where
  "acirclesPoint j i =
    (fmul (float_of_int (2 * j + i mod 2)) squareSize, fmul (float_of_int i) squareSize, 0)"

definition gridCenterX :: "Size \<Rightarrow> real" where
  "gridCenterX sz =
    fadd (fmul (fadd (fmul 2 (fsub (float_of_int (width sz)) 1)) 1) squareSize)
         (fdiv acircleGrid2Distance 2)"

definition gridCenterY :: "Size \<Rightarrow> real" where
  "gridCenterY sz = fdiv (fmul (float_of_int (height sz - 1)) squareSize) 2"

definition whitePoint :: "Size \<Rightarrow> int \<Rightarrow> int \<Rightarrow> Point3f" where
  "whitePoint sz j i =
    (- (fsub (fadd (fadd (fmul (float_of_int (2 * j + i mod 2)) squareSize)
                         acircleGrid2Distance)
                   (fmul (float_of_int (2 * (width sz - 1) + 1)) squareSize))
             (gridCenterX sz)),
     fsub (- (fmul (float_of_int i) squareSize)) (gridCenterY sz), 0)"

definition blackPoint :: "Size \<Rightarrow> int \<Rightarrow> int \<Rightarrow> Point3f" where
  "blackPoint sz j i =
    (- (fsub (fmul (float_of_int (2 * j + i mod 2)) squareSize) (gridCenterX sz)),
     fsub (- (fmul (float_of_int i) squareSize)) (gridCenterY sz), 0)"

definition saveFrameData :: "CalibProcessor \<Rightarrow> CalibProcessor" where
  "saveFrameData s =
    (case mBoardType s of
       Chessboard \<Rightarrow>
         (let objectPoints' = rowLoop chessboardPoint (mBoardSize s) 0 [];
              d = mCalibdata s
          in s\<lparr>mCalibdata := d\<lparr>imagePoints := imagePoints d @ [mCurrentImagePoints s],
                                objectPoints := objectPoints d @ [objectPoints']\<rparr>\<rparr>)
     | chAruco \<Rightarrow>
         (let d = mCalibdata s
          in s\<lparr>mCalibdata :=
                 d\<lparr>allCharucoCorners := allCharucoCorners d @ [mCurrentCharucoCorners s],
                   allCharucoIds := allCharucoIds d @ [mCurrentCharucoIds s]\<rparr>\<rparr>)
     | AcirclesGrid \<Rightarrow>
         (let objectPoints' = rowLoop acirclesPoint (mBoardSize s) 0 [];
              d = mCalibdata s
          in s\<lparr>mCalibdata := d\<lparr>imagePoints := imagePoints d @ [mCurrentImagePoints s],
                                objectPoints := objectPoints d @ [objectPoints']\<rparr>\<rparr>)
     | DoubleAcirclesGrid \<Rightarrow>
         (let white = rowLoop (whitePoint (mBoardSize s)) (mBoardSize s) 0 [];
              objectPoints' = rowLoop (blackPoint (mBoardSize s)) (mBoardSize s) 0 white;
              d = mCalibdata s
          in s\<lparr>mCalibdata := d\<lparr>imagePoints := imagePoints d @ [mCurrentImagePoints s],
                                objectPoints := objectPoints d @ [objectPoints']\<rparr>\<rparr>))"

section \<open>The processor\<close>

text \<open>The constructor: the dataset, the board type and the board size are given.\<close>

definition CalibProcessor_new :: "calibrationData \<Rightarrow> TemplateType \<Rightarrow> Size \<Rightarrow> CalibProcessor" where
  "CalibProcessor_new data board boardSize =
    \<lparr>mCalibdata = data, mBoardType = board, mBoardSize = boardSize,
     mTemplateLocations = [], mCurrentImagePoints = [],
     mCurrentCharucoCorners = [], mCurrentCharucoIds = [],
     mCapuredFrames = 0, mNeededFramesNum = 1\<rparr>"

definition IMAGE_WIDTH :: int where
  "IMAGE_WIDTH = 1280"

definition IMAGE_HEIGHT :: int where
  "IMAGE_HEIGHT = 960"

definition delayBetweenCaptures :: nat where
  "delayBetweenCaptures = 30"

text \<open>The threshold, computed in \<open>double\<close> from the \<open>int\<close> sum of squares.\<close>

definition maxTemplateOffset :: real where
  "maxTemplateOffset =
    round64 (round64 (sqrt (round64
      (of_int (IMAGE_HEIGHT * IMAGE_HEIGHT + IMAGE_WIDTH * IMAGE_WIDTH)))) / 20)"

text \<open>The switch of \<open>processFrame\<close> over the board type.\<close>

definition detectAndParse ::
  "CalibProcessor \<Rightarrow> Frame \<Rightarrow> error + (bool \<times> CalibProcessor)" where
  "detectAndParse s frame =
    (case mBoardType s of
       Chessboard \<Rightarrow> detectAndParseChessboard s frame
     | chAruco \<Rightarrow> detectAndParseChAruco s frame
     | AcirclesGrid \<Rightarrow> detectAndParseACircles s frame
     | DoubleAcirclesGrid \<Rightarrow> detectAndParseDualACircles s frame)"

text \<open>
  \<open>processFrame\<close>, without the drawing on the frame copy. \<open>vector::pop_back\<close> is
  \<open>butlast\<close>; \<open>clear\<close> followed by \<open>resize(delayBetweenCaptures)\<close> leaves
  \<open>delayBetweenCaptures\<close> value-initialised points, each \<open>(0, 0)\<close>.
\<close>

definition processFrame :: "CalibProcessor \<Rightarrow> Frame \<Rightarrow> error + CalibProcessor" where
  "processFrame s frame =
    (case detectAndParse (s\<lparr>mCurrentImagePoints := []\<rparr>) frame of
       Inl e \<Rightarrow> Inl e
     | Inr (isTemplateFound, s1) \<Rightarrow>
         (let s2 = (if length (mTemplateLocations s1) > delayBetweenCaptures
                    then s1\<lparr>mTemplateLocations := butlast (mTemplateLocations s1)\<rparr>
                    else s1)
          in if length (mTemplateLocations s2) = delayBetweenCaptures \<and> isTemplateFound
             then
               (if cv_norm (pt_sub (mTemplateLocations s2 ! 0)
                                   (mTemplateLocations s2 ! (delayBetweenCaptures - 1)))
                     < maxTemplateOffset
                then
                  (let s3 = saveFrameData s2;
                       s4 = s3\<lparr>mCapuredFrames := mCapuredFrames s3 + 1\<rparr>
                   in Inr (s4\<lparr>mTemplateLocations := replicate delayBetweenCaptures (0, 0)\<rparr>))
                else Inr s2)
             else Inr s2))"

definition isProcessed :: "CalibProcessor \<Rightarrow> bool" where
  "isProcessed s = (if mCapuredFrames s < mNeededFramesNum s then False else True)"

definition resetState :: "CalibProcessor \<Rightarrow> CalibProcessor" where
  "resetState s = s\<lparr>mCapuredFrames := 0, mTemplateLocations := []\<rparr>"

text \<open>Feeding a sequence of frames, one call of \<open>processFrame\<close> per frame.\<close>

fun processFrames :: "CalibProcessor \<Rightarrow> Frame list \<Rightarrow> error + CalibProcessor" where
  "processFrames s [] = Inr s"
| "processFrames s (frame # frames) =
    (case processFrame s frame of
       Inl e \<Rightarrow> Inl e
     | Inr s' \<Rightarrow> processFrames s' frames)"

section \<open>Notions the properties are stated with\<close>

text \<open>
  Row-major order: \<open>i\<close> over the rows \<open>0..H-1\<close> outside, \<open>j\<close> over the
  columns \<open>0..W-1\<close> inside, one point per pair.
\<close>

definition rowMajor :: "(int \<Rightarrow> int \<Rightarrow> 'a) \<Rightarrow> int \<Rightarrow> int \<Rightarrow> 'a list" where
  "rowMajor pt W H = concat (map (\<lambda>i. map (\<lambda>j. pt j i) [0..W - 1]) [0..H - 1])"

text \<open>
  Inside a call of \<open>processFrame\<close>: the value of the local \<open>isTemplateFound\<close>, and
  the anchor history once the detector has inserted and \<open>pop_back\<close> has evicted,
  which is the history the trigger condition reads.
\<close>

definition isTemplateFound :: "CalibProcessor \<Rightarrow> Frame \<Rightarrow> bool" where
  "isTemplateFound s frame =
    (case detectAndParse (s\<lparr>mCurrentImagePoints := []\<rparr>) frame of
       Inl e \<Rightarrow> False
     | Inr (found, s1) \<Rightarrow> found)"

definition updatedHistory :: "CalibProcessor \<Rightarrow> Frame \<Rightarrow> Point2f list" where
  "updatedHistory s frame =
    (case detectAndParse (s\<lparr>mCurrentImagePoints := []\<rparr>) frame of
       Inl e \<Rightarrow> mTemplateLocations s
     | Inr (found, s1) \<Rightarrow>
         (if length (mTemplateLocations s1) > delayBetweenCaptures
          then butlast (mTemplateLocations s1)
          else mTemplateLocations s1))"

text \<open>
  One sample more in the dataset: either one entry at the end of both \<open>imagePoints\<close>
  and \<open>objectPoints\<close>, or one entry at the end of both \<open>allCharucoCorners\<close> and
  \<open>allCharucoIds\<close>, the other two sequences as they were.
\<close>

definition sampleAppended :: "calibrationData \<Rightarrow> calibrationData \<Rightarrow> bool" where
  "sampleAppended d d' \<longleftrightarrow>
    (imagePoints d' \<noteq> [] \<and> butlast (imagePoints d') = imagePoints d
       \<and> objectPoints d' \<noteq> [] \<and> butlast (objectPoints d') = objectPoints d
       \<and> allCharucoCorners d' = allCharucoCorners d
       \<and> allCharucoIds d' = allCharucoIds d)
    \<or> (allCharucoCorners d' \<noteq> [] \<and> butlast (allCharucoCorners d') = allCharucoCorners d
       \<and> allCharucoIds d' \<noteq> [] \<and> butlast (allCharucoIds d') = allCharucoIds d
       \<and> imagePoints d' = imagePoints d
       \<and> objectPoints d' = objectPoints d)"

text \<open>
  The longest run of consecutive frames with a successful detection: \<open>cur\<close> is the
  run that ends at the current frame, \<open>best\<close> the longest run closed so far.
\<close>

fun longestRun :: "bool list \<Rightarrow> nat \<Rightarrow> nat \<Rightarrow> nat" where
  "longestRun [] cur best = max cur best"
| "longestRun (b # bs) cur best =
    (if b then longestRun bs (Suc cur) best else longestRun bs 0 (max cur best))"

definition longestDetectionRun :: "CalibProcessor \<Rightarrow> Frame list \<Rightarrow> nat" where
  "longestDetectionRun s frames = longestRun (map (isTemplateFound s) frames) 0 0"

text \<open>Frames for the examples: no detector finds anything; a chessboard is found.\<close>

definition noDetection :: Frame where
  "noDetection =
    \<lparr>findChessboardCorners = (False, []), cornerSubPix = (\<lambda>corners. corners),
     markerIds = [], interpolateCornersCharuco = ([], []),
     findCirclesGrid = (False, []),
     findCirclesGridWhite = (False, []), findCirclesGridBlack = (False, [])\<rparr>"

definition chessboardAt :: "Point2f list \<Rightarrow> Frame" where
  "chessboardAt corners = noDetection\<lparr>findChessboardCorners := (True, corners)\<rparr>"

definition emptyData :: calibrationData where
  "emptyData = \<lparr>imagePoints = [], objectPoints = [], allCharucoCorners = [], allCharucoIds = []\<rparr>"

text \<open>
  A board that slides along the x axis, 100 pixels per frame, found in every frame:
  \<open>slidingBoard k\<close> is \<open>k\<close> frames, the first at \<open>x = 100 * k\<close>, the last at \<open>x = 100\<close>.
\<close>

fun slidingBoard :: "nat \<Rightarrow> Frame list" where
  "slidingBoard 0 = []"
| "slidingBoard (Suc k) = chessboardAt [(100 * real (Suc k), 0), (100 * real (Suc k), 20)]
                           # slidingBoard k"

text \<open>
  A frame of a double circle grid where the detector misses the white grid, leaving
  the centres it did locate in the output array, and would find the black grid.
\<close>

definition whiteGridMissing :: Frame where
  "whiteGridMissing =
    noDetection\<lparr>findCirclesGridWhite := (False, [(3, 4)]),
                findCirclesGridBlack := (True, [(5, 6), (7, 8)])\<rparr>"

section \<open>Rounding\<close>

lemma rne_of_int [simp]: "rne (of_int m) = m"
  by (simp add: rne_def)

lemma rne_le: "q \<le> of_int N \<Longrightarrow> rne q \<le> N"
proof -
  assume q: "q \<le> of_int N"
  then have f: "\<lfloor>q\<rfloor> \<le> N" by (simp add: floor_le_iff)
  show ?thesis
  proof (cases "q = of_int \<lfloor>q\<rfloor>")
    case True
    then have "rne q = \<lfloor>q\<rfloor>" by (metis rne_of_int)
    with f show ?thesis by simp
  next
    case False
    with q have "\<lfloor>q\<rfloor> < N"
      by (metis f le_less of_int_floor_le order_antisym)
    moreover have "rne q \<le> \<lfloor>q\<rfloor> + 1"
      by (simp add: rne_def Let_def)
    ultimately show ?thesis by simp
  qed
qed

lemma rne_ge: "of_int N \<le> q \<Longrightarrow> N \<le> rne q"
proof -
  assume "of_int N \<le> q"
  then have "N \<le> \<lfloor>q\<rfloor>" by (simp add: le_floor_iff)
  moreover have "\<lfloor>q\<rfloor> \<le> rne q"
    by (simp add: rne_def Let_def)
  ultimately show ?thesis by simp
qed

lemma two_powi_pos [simp]: "0 < (2::real) powi k"
  by (simp add: power_int_def)

lemma binade_bounds:
  assumes "x \<noteq> 0"
  shows "2 powi binade x \<le> \<bar>x\<bar>" and "\<bar>x\<bar> < 2 powi (binade x + 1)"
proof -
  from assms have pos: "0 < \<bar>x\<bar>" by simp
  have "\<lfloor>log 2 \<bar>x\<bar>\<rfloor> = binade x" by (simp add: binade_def)
  with pos have "2 powr real_of_int (binade x) \<le> \<bar>x\<bar>
      \<and> \<bar>x\<bar> < 2 powr (real_of_int (binade x) + 1)"
    by (simp add: floor_log_eq_powr_iff)
  moreover have "(2::real) powr real_of_int k = 2 powi k" for k
    by (simp add: powr_real_of_int')
  moreover have "real_of_int (binade x) + 1 = real_of_int (binade x + 1)"
    by simp
  ultimately show "2 powi binade x \<le> \<bar>x\<bar>" and "\<bar>x\<bar> < 2 powi (binade x + 1)"
    by metis+
qed

lemma binade_eq:
  assumes "2 powi e \<le> \<bar>x\<bar>" and "\<bar>x\<bar> < 2 powi (e + 1)"
  shows "binade x = e"
proof -
  have pos: "0 < \<bar>x\<bar>"
    using assms(1) two_powi_pos [of e] by linarith
  have p: "(2::real) powr real_of_int k = 2 powi k" for k
    by (simp add: powr_real_of_int')
  have "2 powr real_of_int e \<le> \<bar>x\<bar> \<and> \<bar>x\<bar> < 2 powr (real_of_int e + 1)"
    using assms p [of e] p [of "e + 1"] by simp
  with pos show ?thesis
    by (simp add: binade_def floor_log_eq_powr_iff)
qed

lemma two_powi_mono: "a \<le> b \<Longrightarrow> (2::real) powi a \<le> 2 powi b"
  by (rule power_int_increasing) simp_all

lemma two_powi_less_cancel: "(2::real) powi a < 2 powi b \<Longrightarrow> a < b"
  by (metis not_less two_powi_mono)

lemma fl_round_eval:
  assumes "2 powi e \<le> \<bar>x\<bar>" and "\<bar>x\<bar> < 2 powi (e + 1)" and "emin \<le> e"
  shows "fl_round p emin x =
    of_int (rne (x / 2 powi (e - int p + 1))) * 2 powi (e - int p + 1)"
proof -
  have "0 < (2::real) powi e" by simp
  with assms(1) have "0 < \<bar>x\<bar>" by linarith
  then have "x \<noteq> 0" by simp
  moreover have "binade x = e"
    using assms(1,2) by (rule binade_eq)
  ultimately show ?thesis
    using assms(3) by (simp add: fl_round_def Let_def max_def)
qed

lemma fl_round_exact:
  assumes x: "x = of_int m * 2 powi k" and m: "\<bar>m\<bar> < 2 ^ p" and k: "emin - int p + 1 \<le> k"
  shows "fl_round p emin x = x"
proof (cases "x = 0")
  case True
  then show ?thesis by (simp add: fl_round_def)
next
  case False
  define t where "t = max (binade x) emin - int p + 1"
  have "t \<le> k"
  proof (cases "binade x \<le> emin")
    case True
    with k show ?thesis by (simp add: t_def max_def)
  next
    case nle: False
    have "2 powi binade x \<le> \<bar>x\<bar>"
      using False by (rule binade_bounds)
    also have "\<bar>x\<bar> = real_of_int \<bar>m\<bar> * 2 powi k"
      by (simp add: x abs_mult)
    also have "\<dots> < 2 ^ p * 2 powi k"
    proof -
      from m have "real_of_int \<bar>m\<bar> < real_of_int (2 ^ p)"
        by (simp only: of_int_less_iff)
      then show ?thesis by simp
    qed
    also have "\<dots> = 2 powi (int p + k)"
      by (simp add: power_int_add)
    finally have "binade x < int p + k"
      by (rule two_powi_less_cancel)
    with nle show ?thesis by (simp add: t_def max_def)
  qed
  then have "0 \<le> k - t" by simp
  have "x / 2 powi t = of_int m * 2 powi (k - t)"
    by (simp add: x power_int_diff)
  also have "\<dots> = of_int (m * 2 ^ nat (k - t))"
    using \<open>0 \<le> k - t\<close> by (simp add: power_int_def)
  finally have "rne (x / 2 powi t) = m * 2 ^ nat (k - t)"
    by (simp only: rne_of_int)
  then have "of_int (rne (x / 2 powi t)) * 2 powi t = of_int m * 2 powi (k - t) * 2 powi t"
    using \<open>0 \<le> k - t\<close> by (simp add: power_int_def)
  also have "\<dots> = x"
    by (simp add: x power_int_diff)
  finally show ?thesis
    using False by (simp add: fl_round_def Let_def t_def)
qed

lemma fl_round_abs_le:
  assumes le: "\<bar>x\<bar> \<le> 2 powi n" and n: "emin - int p + 1 \<le> n" and p: "0 < p"
  shows "\<bar>fl_round p emin x\<bar> \<le> 2 powi n"
proof (cases "x = 0")
  case True
  then show ?thesis
    using two_powi_pos [of n] by (simp add: fl_round_def less_imp_le)
next
  case False
  define t where "t = max (binade x) emin - int p + 1"
  have "2 powi binade x \<le> \<bar>x\<bar>"
    using False by (rule binade_bounds)
  with le have "(2::real) powi binade x \<le> 2 powi n" by simp
  then have "binade x \<le> n"
    by (metis not_less power_int_strict_increasing one_less_numeral_iff semiring_norm(76))
  with n p have "t \<le> n" by (simp add: t_def max_def)
  then have nn: "0 \<le> n - t" by simp
  define N :: int where "N = 2 ^ nat (n - t)"
  have "real_of_int N = 2 powi (n - t)"
    using nn by (simp add: N_def power_int_nonneg_exp)
  then have "real_of_int N * 2 powi t = 2 powi (n - t) * 2 powi t"
    by simp
  also have "\<dots> = 2 powi (n - t + t)"
    by (rule power_int_add [symmetric]) simp
  finally have N: "real_of_int N * 2 powi t = 2 powi n"
    by simp
  have "\<bar>x / 2 powi t\<bar> \<le> real_of_int N"
  proof -
    have "\<bar>x / 2 powi t\<bar> = \<bar>x\<bar> / 2 powi t" by simp
    also have "\<dots> \<le> 2 powi n / 2 powi t"
      using le by (simp add: divide_right_mono)
    also have "\<dots> = real_of_int N"
      using N by (simp add: field_simps)
    finally show ?thesis .
  qed
  then have "x / 2 powi t \<le> real_of_int N" and "- real_of_int N \<le> x / 2 powi t"
    by arith+
  then have "x / 2 powi t \<le> real_of_int N" and "real_of_int (- N) \<le> x / 2 powi t"
    by simp_all
  then have "rne (x / 2 powi t) \<le> N" and "- N \<le> rne (x / 2 powi t)"
    by (simp_all only: rne_le rne_ge)
  then have "\<bar>rne (x / 2 powi t)\<bar> \<le> N" by simp
  then have "real_of_int \<bar>rne (x / 2 powi t)\<bar> \<le> real_of_int N"
    by (simp only: of_int_le_iff)
  then have "\<bar>of_int (rne (x / 2 powi t)) * 2 powi t\<bar> \<le> real_of_int N * 2 powi t"
    by (simp add: abs_mult mult_right_mono)
  with N show ?thesis
    using False by (simp add: fl_round_def Let_def t_def)
qed

text \<open>Evaluation: the binade of a number, by halving or doubling it into \<open>[1, 2)\<close>.\<close>

lemma binade_rec:
  assumes "x \<noteq> 0"
  shows "binade x =
    (if 2 \<le> \<bar>x\<bar> then binade (x / 2) + 1
     else if \<bar>x\<bar> < 1 then binade (2 * x) - 1
     else 0)"
proof -
  have half: "binade (x / 2) + 1 = binade x"
  proof -
    have "log 2 \<bar>x / 2\<bar> = log 2 \<bar>x\<bar> - 1"
      using assms by (simp add: log_divide)
    then have "\<lfloor>log 2 \<bar>x / 2\<bar>\<rfloor> = \<lfloor>log 2 \<bar>x\<bar>\<rfloor> - 1"
      by (simp only: floor_diff_one)
    then show ?thesis by (simp add: binade_def)
  qed
  have double: "binade (2 * x) - 1 = binade x"
  proof -
    have "log 2 \<bar>2 * x\<bar> = log 2 \<bar>x\<bar> + 1"
      using assms by (simp add: abs_mult log_mult)
    then have "\<lfloor>log 2 \<bar>2 * x\<bar>\<rfloor> = \<lfloor>log 2 \<bar>x\<bar>\<rfloor> + 1"
      by simp
    then show ?thesis by (simp add: binade_def)
  qed
  have unit: "binade x = 0" if "\<not> 2 \<le> \<bar>x\<bar>" and "\<not> \<bar>x\<bar> < 1"
    using that by (intro binade_eq) simp_all
  from half double unit show ?thesis by simp
qed

lemmas fl_eval = fl_round_def Let_def binade_rec rne_def power_int_def power_one_over

lemma round32_of_int: "\<bar>m\<bar> < 16777216 \<Longrightarrow> round32 (of_int m) = of_int m"
  unfolding round32_def
  by (rule fl_round_exact [where m = m and k = 0]) simp_all

lemma round64_of_int: "\<bar>m\<bar> < 9007199254740992 \<Longrightarrow> round64 (of_int m) = of_int m"
  unfolding round64_def
  by (rule fl_round_exact [where m = m and k = 0]) simp_all

lemma round32_numeral [simp]:
  "(numeral w :: int) < 16777216 \<Longrightarrow> round32 (numeral w) = numeral w"
  "(numeral w :: int) < 16777216 \<Longrightarrow> round32 (- numeral w) = - numeral w"
  "round32 0 = 0" "round32 1 = 1"
  using round32_of_int [of "numeral w"] round32_of_int [of "- numeral w"]
    round32_of_int [of 0] round32_of_int [of 1]
  by simp_all

lemma round64_numeral [simp]:
  "(numeral w :: int) < 9007199254740992 \<Longrightarrow> round64 (numeral w) = numeral w"
  "(numeral w :: int) < 9007199254740992 \<Longrightarrow> round64 (- numeral w) = - numeral w"
  "round64 0 = 0" "round64 1 = 1"
  using round64_of_int [of "numeral w"] round64_of_int [of "- numeral w"]
    round64_of_int [of 0] round64_of_int [of 1]
  by simp_all

lemma round64_abs_le: "\<bar>x\<bar> \<le> 2 ^ n \<Longrightarrow> \<bar>round64 x\<bar> \<le> 2 ^ n"
  unfolding round64_def
  using fl_round_abs_le [of x "int n" "- 1022" 53]
  by (simp add: power_int_def)

lemma round64_abs_le_numeral:
  "\<bar>x\<bar> \<le> 64 \<Longrightarrow> \<bar>round64 x\<bar> \<le> 64"
  "\<bar>x\<bar> \<le> 1024 \<Longrightarrow> \<bar>round64 x\<bar> \<le> 1024"
  "\<bar>x\<bar> \<le> 2048 \<Longrightarrow> \<bar>round64 x\<bar> \<le> 2048"
  using round64_abs_le [of x 6] round64_abs_le [of x 10] round64_abs_le [of x 11]
  by simp_all

text \<open>The constants of the source, evaluated.\<close>

lemma squareSize_eq: "squareSize = 4272947 / 262144"
  by (simp add: squareSize_def round32_def fl_eval)

lemma acircleGrid2Distance_eq: "acircleGrid2Distance = 295"
  by (simp add: acircleGrid2Distance_def)

lemma maxTemplateOffset_eq: "maxTemplateOffset = 80"
proof -
  have "sqrt 2560000 = 1600"
    by (rule real_sqrt_unique) simp_all
  then show ?thesis
    by (simp add: maxTemplateOffset_def IMAGE_HEIGHT_def IMAGE_WIDTH_def)
qed

text \<open>
  Anchors no further apart than 32 pixels in each coordinate difference pass the
  distance test, whatever the roundings.
\<close>

lemma cv_norm_near:
  assumes "\<bar>x\<bar> \<le> 32" and "\<bar>y\<bar> \<le> 32"
  shows "cv_norm (x, y) < maxTemplateOffset"
proof -
  have sq: "\<bar>z * z\<bar> \<le> 1024" if "\<bar>z\<bar> \<le> 32" for z :: real
  proof -
    from that have "\<bar>z\<bar> * \<bar>z\<bar> \<le> 32 * 32"
      by (intro mult_mono) simp_all
    then show ?thesis by (simp add: abs_mult)
  qed
  have "\<bar>round64 (x * x)\<bar> \<le> 1024"
    by (rule round64_abs_le_numeral) (rule sq, rule assms)
  moreover have "\<bar>round64 (y * y)\<bar> \<le> 1024"
    by (rule round64_abs_le_numeral) (rule sq, rule assms)
  ultimately have "\<bar>round64 (x * x)\<bar> \<le> 1024" and "\<bar>round64 (y * y)\<bar> \<le> 1024"
    by blast+
  then have "\<bar>round64 (x * x) + round64 (y * y)\<bar> \<le> 2048"
    by linarith
  then have "\<bar>round64 (round64 (x * x) + round64 (y * y))\<bar> \<le> 2048"
    by (rule round64_abs_le_numeral)
  then have "\<bar>sqrt (round64 (round64 (x * x) + round64 (y * y)))\<bar> \<le> sqrt 2048"
    by (simp only: real_sqrt_abs' [symmetric] real_sqrt_le_iff)
  also have "sqrt 2048 \<le> 64"
    by (rule real_le_lsqrt) simp_all
  finally have "\<bar>round64 (sqrt (round64 (round64 (x * x) + round64 (y * y))))\<bar> \<le> 64"
    by (rule round64_abs_le_numeral)
  then show ?thesis
    by (simp add: cv_norm_def maxTemplateOffset_eq)
qed

section \<open>One call of processFrame\<close>

lemmas detect_defs =
  detectAndParse_def detectAndParseChessboard_def detectAndParseChAruco_def
  detectAndParseACircles_def detectAndParseDualACircles_def

lemmas eval_defs =
  processFrame_def detect_defs Let_def delayBetweenCaptures_def pt_sub_def fsub_def
  chessboardAt_def noDetection_def CalibProcessor_new_def emptyData_def

lemma detectAndParse_fields:
  assumes "detectAndParse s frame = Inr (found, s1)"
  shows "mCalibdata s1 = mCalibdata s \<and> mBoardType s1 = mBoardType s
    \<and> mBoardSize s1 = mBoardSize s \<and> mCapuredFrames s1 = mCapuredFrames s
    \<and> mNeededFramesNum s1 = mNeededFramesNum s"
  using assms
  by (auto simp: detect_defs Let_def split: TemplateType.splits if_splits list.splits)

lemma detectAndParse_history:
  assumes "detectAndParse s frame = Inr (found, s1)"
  shows "if found
    then mTemplateLocations s1 \<noteq> [] \<and> tl (mTemplateLocations s1) = mTemplateLocations s
    else mTemplateLocations s1 = mTemplateLocations s"
  using assms
  by (auto simp: detect_defs Let_def split: TemplateType.splits if_splits list.splits)

lemma saveFrameData_fields:
  "mCapuredFrames (saveFrameData s) = mCapuredFrames s
   \<and> mNeededFramesNum (saveFrameData s) = mNeededFramesNum s
   \<and> mBoardType (saveFrameData s) = mBoardType s
   \<and> mBoardSize (saveFrameData s) = mBoardSize s
   \<and> mTemplateLocations (saveFrameData s) = mTemplateLocations s"
  by (simp add: saveFrameData_def Let_def split: TemplateType.splits)

lemma saveFrameData_sampleAppended:
  "sampleAppended (mCalibdata s) (mCalibdata (saveFrameData s))"
  by (simp add: saveFrameData_def sampleAppended_def Let_def split: TemplateType.splits)

text \<open>
  One call of \<open>processFrame\<close> that returns, read off its definition: the detector's
  result, the evicted state \<open>s2\<close>, and the state returned in each branch.
\<close>

lemma processFrame_InrE:
  assumes "processFrame s frame = Inr s'"
  obtains found s1 where
    "detectAndParse (s\<lparr>mCurrentImagePoints := []\<rparr>) frame = Inr (found, s1)"
    "isTemplateFound s frame = found"
    "updatedHistory s frame =
       (if length (mTemplateLocations s1) > 30 then butlast (mTemplateLocations s1)
        else mTemplateLocations s1)"
    "s' =
      (let s2 = (if length (mTemplateLocations s1) > 30
                 then s1\<lparr>mTemplateLocations := butlast (mTemplateLocations s1)\<rparr> else s1)
       in if length (mTemplateLocations s2) = 30 \<and> found
             \<and> cv_norm (pt_sub (mTemplateLocations s2 ! 0) (mTemplateLocations s2 ! 29))
                 < maxTemplateOffset
          then (saveFrameData s2)\<lparr>mCapuredFrames := mCapuredFrames s2 + 1,
                                    mTemplateLocations := replicate 30 (0, 0)\<rparr>
          else s2)"
proof (cases "detectAndParse (s\<lparr>mCurrentImagePoints := []\<rparr>) frame")
  case (Inl e)
  with assms show ?thesis by (simp add: processFrame_def)
next
  case (Inr r)
  obtain found s1 where r: "r = (found, s1)" by (cases r)
  note d = Inr [unfolded r]
  have 1: "isTemplateFound s frame = found"
    by (simp add: isTemplateFound_def d)
  have 2: "updatedHistory s frame =
       (if length (mTemplateLocations s1) > 30 then butlast (mTemplateLocations s1)
        else mTemplateLocations s1)"
    by (simp add: updatedHistory_def d delayBetweenCaptures_def)
  have "processFrame s frame = Inr
      (let s2 = (if length (mTemplateLocations s1) > 30
                 then s1\<lparr>mTemplateLocations := butlast (mTemplateLocations s1)\<rparr> else s1)
       in if length (mTemplateLocations s2) = 30 \<and> found
             \<and> cv_norm (pt_sub (mTemplateLocations s2 ! 0) (mTemplateLocations s2 ! 29))
                 < maxTemplateOffset
          then (saveFrameData s2)\<lparr>mCapuredFrames := mCapuredFrames s2 + 1,
                                    mTemplateLocations := replicate 30 (0, 0)\<rparr>
          else s2)"
    by (simp add: processFrame_def d delayBetweenCaptures_def Let_def saveFrameData_fields)
  with assms have 3: "s' =
      (let s2 = (if length (mTemplateLocations s1) > 30
                 then s1\<lparr>mTemplateLocations := butlast (mTemplateLocations s1)\<rparr> else s1)
       in if length (mTemplateLocations s2) = 30 \<and> found
             \<and> cv_norm (pt_sub (mTemplateLocations s2 ! 0) (mTemplateLocations s2 ! 29))
                 < maxTemplateOffset
          then (saveFrameData s2)\<lparr>mCapuredFrames := mCapuredFrames s2 + 1,
                                    mTemplateLocations := replicate 30 (0, 0)\<rparr>
          else s2)"
    by simp
  from d 1 2 3 show ?thesis by (rule that)
qed

text \<open>
  The same, in terms of the state \<open>s2\<close> the trigger condition reads: apart from the
  detection buffers it is \<open>s\<close> with the history updated.
\<close>

lemma processFrame_stepE:
  assumes "processFrame s frame = Inr s'"
  obtains s2 a where
    "updatedHistory s frame = mTemplateLocations s2"
    "mCalibdata s2 = mCalibdata s \<and> mBoardType s2 = mBoardType s
      \<and> mBoardSize s2 = mBoardSize s \<and> mCapuredFrames s2 = mCapuredFrames s
      \<and> mNeededFramesNum s2 = mNeededFramesNum s"
    "mTemplateLocations s2 =
      (if isTemplateFound s frame
       then (if length (mTemplateLocations s) \<ge> 30
             then butlast (a # mTemplateLocations s)
             else a # mTemplateLocations s)
       else (if length (mTemplateLocations s) > 30
             then butlast (mTemplateLocations s)
             else mTemplateLocations s))"
    "s' =
      (if length (mTemplateLocations s2) = 30 \<and> isTemplateFound s frame
          \<and> cv_norm (pt_sub (mTemplateLocations s2 ! 0) (mTemplateLocations s2 ! 29))
              < maxTemplateOffset
       then (saveFrameData s2)\<lparr>mCapuredFrames := mCapuredFrames s + 1,
                                 mTemplateLocations := replicate 30 (0, 0)\<rparr>
       else s2)"
proof -
  from assms obtain found s1 where
    d: "detectAndParse (s\<lparr>mCurrentImagePoints := []\<rparr>) frame = Inr (found, s1)" and
    f: "isTemplateFound s frame = found" and
    u: "updatedHistory s frame =
       (if length (mTemplateLocations s1) > 30 then butlast (mTemplateLocations s1)
        else mTemplateLocations s1)" and
    s': "s' =
      (let s2 = (if length (mTemplateLocations s1) > 30
                 then s1\<lparr>mTemplateLocations := butlast (mTemplateLocations s1)\<rparr> else s1)
       in if length (mTemplateLocations s2) = 30 \<and> found
             \<and> cv_norm (pt_sub (mTemplateLocations s2 ! 0) (mTemplateLocations s2 ! 29))
                 < maxTemplateOffset
          then (saveFrameData s2)\<lparr>mCapuredFrames := mCapuredFrames s2 + 1,
                                    mTemplateLocations := replicate 30 (0, 0)\<rparr>
          else s2)"
    by (rule processFrame_InrE)
  define s2 where "s2 = (if length (mTemplateLocations s1) > 30
                 then s1\<lparr>mTemplateLocations := butlast (mTemplateLocations s1)\<rparr> else s1)"
  have fields: "mCalibdata s2 = mCalibdata s \<and> mBoardType s2 = mBoardType s
      \<and> mBoardSize s2 = mBoardSize s \<and> mCapuredFrames s2 = mCapuredFrames s
      \<and> mNeededFramesNum s2 = mNeededFramesNum s"
    using detectAndParse_fields [OF d] by (simp add: s2_def)
  have h2: "mTemplateLocations s2 =
      (if length (mTemplateLocations s1) > 30 then butlast (mTemplateLocations s1)
        else mTemplateLocations s1)"
    by (simp add: s2_def)
  have "\<exists>a. mTemplateLocations s1 =
      (if found then a # mTemplateLocations s else mTemplateLocations s)"
  proof (cases found)
    case True
    with detectAndParse_history [OF d]
    have "mTemplateLocations s1 \<noteq> []" and "tl (mTemplateLocations s1) = mTemplateLocations s"
      by simp_all
    then have "mTemplateLocations s1 = hd (mTemplateLocations s1) # mTemplateLocations s"
      by (metis hd_Cons_tl)
    then have "\<exists>a. mTemplateLocations s1 = a # mTemplateLocations s" ..
    with True show ?thesis by simp
  next
    case False
    with detectAndParse_history [OF d] show ?thesis by simp
  qed
  then obtain a where h1: "mTemplateLocations s1 =
      (if found then a # mTemplateLocations s else mTemplateLocations s)" ..
  have hist: "mTemplateLocations s2 =
      (if isTemplateFound s frame
       then (if length (mTemplateLocations s) \<ge> 30
             then butlast (a # mTemplateLocations s)
             else a # mTemplateLocations s)
       else (if length (mTemplateLocations s) > 30
             then butlast (mTemplateLocations s)
             else mTemplateLocations s))"
    unfolding h2 h1 f by (cases found) auto
  have step: "s' =
      (if length (mTemplateLocations s2) = 30 \<and> isTemplateFound s frame
          \<and> cv_norm (pt_sub (mTemplateLocations s2 ! 0) (mTemplateLocations s2 ! 29))
              < maxTemplateOffset
       then (saveFrameData s2)\<lparr>mCapuredFrames := mCapuredFrames s + 1,
                                 mTemplateLocations := replicate 30 (0, 0)\<rparr>
       else s2)"
    using s' fields unfolding s2_def [symmetric] f Let_def by simp
  from u h2 have "updatedHistory s frame = mTemplateLocations s2" by simp
  from this fields hist step show ?thesis by (rule that)
qed


text \<open>The detection result depends on the board type and the frame only.\<close>

lemma isTemplateFound_eq:
  "isTemplateFound s frame =
    (case mBoardType s of
       Chessboard \<Rightarrow> fst (findChessboardCorners frame)
         \<and> cornerSubPix frame (snd (findChessboardCorners frame)) \<noteq> []
     | chAruco \<Rightarrow> markerIds frame \<noteq> [] \<and> fst (interpolateCornersCharuco frame) \<noteq> []
     | AcirclesGrid \<Rightarrow> fst (findCirclesGrid frame) \<and> snd (findCirclesGrid frame) \<noteq> []
     | DoubleAcirclesGrid \<Rightarrow> fst (findCirclesGridWhite frame)
         \<and> fst (findCirclesGridBlack frame)
         \<and> snd (findCirclesGridWhite frame) @ snd (findCirclesGridBlack frame) \<noteq> [])"
proof (cases "mBoardType s")
  case AcirclesGrid
  then show ?thesis
    by (simp add: isTemplateFound_def detectAndParse_def detectAndParseACircles_def Let_def
          split: list.splits)
next
  case Chessboard
  then show ?thesis
    by (simp add: isTemplateFound_def detectAndParse_def detectAndParseChessboard_def Let_def
          split: list.splits)
next
  case chAruco
  then show ?thesis
    by (simp add: isTemplateFound_def detectAndParse_def detectAndParseChAruco_def Let_def)
next
  case DoubleAcirclesGrid
  then show ?thesis
    by (auto simp add: isTemplateFound_def detectAndParse_def detectAndParseDualACircles_def
          Let_def split: list.splits)
qed

lemma isTemplateFound_cong:
  assumes "mBoardType s = mBoardType t"
  shows "isTemplateFound s frame = isTemplateFound t frame"
  using assms by (simp add: isTemplateFound_eq)

text \<open>A call that returns without a capture: the state is \<open>s\<close> with the history updated.\<close>

lemma processFrame_boardType:
  assumes "processFrame s frame = Inr s'"
  shows "mBoardType s' = mBoardType s \<and> mBoardSize s' = mBoardSize s
    \<and> mNeededFramesNum s' = mNeededFramesNum s"
proof -
  from assms obtain s2 and a :: Point2f where
    fields: "mCalibdata s2 = mCalibdata s \<and> mBoardType s2 = mBoardType s
      \<and> mBoardSize s2 = mBoardSize s \<and> mCapuredFrames s2 = mCapuredFrames s
      \<and> mNeededFramesNum s2 = mNeededFramesNum s" and
    step: "s' =
      (if length (mTemplateLocations s2) = 30 \<and> isTemplateFound s frame
          \<and> cv_norm (pt_sub (mTemplateLocations s2 ! 0) (mTemplateLocations s2 ! 29))
              < maxTemplateOffset
       then (saveFrameData s2)\<lparr>mCapuredFrames := mCapuredFrames s + 1,
                                 mTemplateLocations := replicate 30 (0, 0)\<rparr>
       else s2)"
    by (rule processFrame_stepE)
  show ?thesis
    unfolding step using fields saveFrameData_fields [of s2] by simp
qed

lemma processFrame_below_capacity:
  assumes "processFrame s frame = Inr s'"
    and "length (mTemplateLocations s)
          + (if isTemplateFound s frame then 1 else 0) < 30"
  shows "mCapuredFrames s' = mCapuredFrames s \<and> mCalibdata s' = mCalibdata s
    \<and> length (mTemplateLocations s')
        = length (mTemplateLocations s) + (if isTemplateFound s frame then 1 else 0)"
proof -
  from assms(1) obtain s2 and a :: Point2f where
    fields: "mCalibdata s2 = mCalibdata s \<and> mBoardType s2 = mBoardType s
      \<and> mBoardSize s2 = mBoardSize s \<and> mCapuredFrames s2 = mCapuredFrames s
      \<and> mNeededFramesNum s2 = mNeededFramesNum s" and
    hist: "mTemplateLocations s2 =
      (if isTemplateFound s frame
       then (if length (mTemplateLocations s) \<ge> 30
             then butlast (a # mTemplateLocations s)
             else a # mTemplateLocations s)
       else (if length (mTemplateLocations s) > 30
             then butlast (mTemplateLocations s)
             else mTemplateLocations s))" and
    step: "s' =
      (if length (mTemplateLocations s2) = 30 \<and> isTemplateFound s frame
          \<and> cv_norm (pt_sub (mTemplateLocations s2 ! 0) (mTemplateLocations s2 ! 29))
              < maxTemplateOffset
       then (saveFrameData s2)\<lparr>mCapuredFrames := mCapuredFrames s + 1,
                                 mTemplateLocations := replicate 30 (0, 0)\<rparr>
       else s2)"
    by (rule processFrame_stepE)
  from hist assms(2) have len: "length (mTemplateLocations s2)
      = length (mTemplateLocations s) + (if isTemplateFound s frame then 1 else 0)"
    by (simp split: if_splits)
  with assms(2) have "length (mTemplateLocations s2) \<noteq> 30" by simp
  with step have "s' = s2" by simp
  with fields len show ?thesis by simp
qed

lemma processFrames_ConsE:
  assumes "processFrames s (frame # frames) = Inr s'"
  obtains s1 where "processFrame s frame = Inr s1" and "processFrames s1 frames = Inr s'"
proof (cases "processFrame s frame")
  case (Inl e)
  with assms show ?thesis by simp
next
  case (Inr s1)
  with assms have "processFrames s1 frames = Inr s'" by simp
  with Inr show ?thesis by (rule that)
qed

lemma no_capture_below_capacity:
  assumes "processFrames s frames = Inr s'"
    and "length (mTemplateLocations s) + length (filter (isTemplateFound s) frames) < 30"
  shows "mCapuredFrames s' = mCapuredFrames s \<and> mCalibdata s' = mCalibdata s"
  using assms
proof (induction frames arbitrary: s)
  case Nil
  then show ?case by simp
next
  case (Cons frame frames)
  from Cons.prems(1) obtain s1 where
    one: "processFrame s frame = Inr s1" and rest: "processFrames s1 frames = Inr s'"
    by (rule processFrames_ConsE)
  let ?n = "if isTemplateFound s frame then 1 else 0 :: nat"
  have count: "length (filter (isTemplateFound s) (frame # frames))
      = ?n + length (filter (isTemplateFound s) frames)"
    by simp
  with Cons.prems(2) have below: "length (mTemplateLocations s) + ?n < 30"
    by linarith
  from one below have
    s1: "mCapuredFrames s1 = mCapuredFrames s \<and> mCalibdata s1 = mCalibdata s
      \<and> length (mTemplateLocations s1) = length (mTemplateLocations s) + ?n"
    by (rule processFrame_below_capacity)
  from one have "mBoardType s1 = mBoardType s"
    by (simp add: processFrame_boardType)
  then have "filter (isTemplateFound s1) frames = filter (isTemplateFound s) frames"
    by (intro filter_cong refl isTemplateFound_cong)
  then have "length (filter (isTemplateFound s1) frames)
      = length (filter (isTemplateFound s) frames)"
    by (rule arg_cong)
  moreover from s1 have "length (mTemplateLocations s1) = length (mTemplateLocations s) + ?n"
    by (rule conjunct2 [THEN conjunct2])
  ultimately have
    "length (mTemplateLocations s1) + length (filter (isTemplateFound s1) frames) < 30"
    using count Cons.prems(2) by linarith
  with rest have "mCapuredFrames s' = mCapuredFrames s1 \<and> mCalibdata s' = mCalibdata s1"
    by (rule Cons.IH)
  with s1 show ?case by simp
qed

text \<open>A call without detection, on a history of at most 30 entries.\<close>

lemma processFrame_not_found:
  assumes "processFrame s frame = Inr s'"
    and "\<not> isTemplateFound s frame"
    and "length (mTemplateLocations s) \<le> 30"
  shows "mTemplateLocations s' = mTemplateLocations s
    \<and> mCapuredFrames s' = mCapuredFrames s \<and> mCalibdata s' = mCalibdata s"
proof -
  from assms(1) obtain s2 and a :: Point2f where
    fields: "mCalibdata s2 = mCalibdata s \<and> mBoardType s2 = mBoardType s
      \<and> mBoardSize s2 = mBoardSize s \<and> mCapuredFrames s2 = mCapuredFrames s
      \<and> mNeededFramesNum s2 = mNeededFramesNum s" and
    hist: "mTemplateLocations s2 =
      (if isTemplateFound s frame
       then (if length (mTemplateLocations s) \<ge> 30
             then butlast (a # mTemplateLocations s)
             else a # mTemplateLocations s)
       else (if length (mTemplateLocations s) > 30
             then butlast (mTemplateLocations s)
             else mTemplateLocations s))" and
    step: "s' =
      (if length (mTemplateLocations s2) = 30 \<and> isTemplateFound s frame
          \<and> cv_norm (pt_sub (mTemplateLocations s2 ! 0) (mTemplateLocations s2 ! 29))
              < maxTemplateOffset
       then (saveFrameData s2)\<lparr>mCapuredFrames := mCapuredFrames s + 1,
                                 mTemplateLocations := replicate 30 (0, 0)\<rparr>
       else s2)"
    by (rule processFrame_stepE)
  from step assms(2) have "s' = s2" by simp
  moreover from hist assms(2,3) have "mTemplateLocations s2 = mTemplateLocations s" by simp
  ultimately show ?thesis using fields by simp
qed


section \<open>The capture trigger\<close>

text \<open>
  C1 as stated fails. The history holds 29 anchors at \<open>(2 ^ -20, 0)\<close> and the board
  is found at \<open>(80, 0)\<close>: after the update the history has 30 entries, the detection
  succeeded, and the Euclidean distance between the newest and the oldest anchor,
  \<open>80 - 2 ^ -20\<close>, is below \<open>sqrt (1280\<^sup>2 + 960\<^sup>2) / 20 = 80\<close>. The source subtracts the
  points in \<open>float\<close>, where the difference rounds to \<open>80\<close>, and nothing is captured.
\<close>

theorem no_capture_below_threshold:
  "processFrame
     ((CalibProcessor_new emptyData Chessboard \<lparr>width = 6, height = 9\<rparr>)
        \<lparr>mTemplateLocations := replicate 29 (1 / 1048576, 0)\<rparr>)
     (chessboardAt [(80, 0), (100, 0)])
   = Inr ((CalibProcessor_new emptyData Chessboard \<lparr>width = 6, height = 9\<rparr>)
            \<lparr>mTemplateLocations := (80, 0) # replicate 29 (1 / 1048576, 0),
              mCurrentImagePoints := [(80, 0), (100, 0)]\<rparr>)
   \<and> mCapuredFrames ((CalibProcessor_new emptyData Chessboard \<lparr>width = 6, height = 9\<rparr>)
            \<lparr>mTemplateLocations := (80, 0) # replicate 29 (1 / 1048576, 0),
              mCurrentImagePoints := [(80, 0), (100, 0)]\<rparr>) = 0
   \<and> updatedHistory
        ((CalibProcessor_new emptyData Chessboard \<lparr>width = 6, height = 9\<rparr>)
           \<lparr>mTemplateLocations := replicate 29 (1 / 1048576, 0)\<rparr>)
        (chessboardAt [(80, 0), (100, 0)])
      = (80, 0) # replicate 29 (1 / 1048576, 0)
   \<and> isTemplateFound
        ((CalibProcessor_new emptyData Chessboard \<lparr>width = 6, height = 9\<rparr>)
           \<lparr>mTemplateLocations := replicate 29 (1 / 1048576, 0)\<rparr>)
        (chessboardAt [(80, 0), (100, 0)])
   \<and> sqrt ((80 - 1 / 1048576)\<^sup>2 + (0 - 0)\<^sup>2) < sqrt (1280\<^sup>2 + 960\<^sup>2) / (20::real)"
proof -
  let ?s = "(CalibProcessor_new emptyData Chessboard \<lparr>width = 6, height = 9\<rparr>)
        \<lparr>mTemplateLocations := replicate 29 (1 / 1048576, 0)\<rparr>"
  let ?f = "chessboardAt [(80, 0), (100, 0)]"
  have "sqrt 6400 = 80"
    by (rule real_sqrt_unique) simp_all
  then have far: "\<not> cv_norm (80, 0) < maxTemplateOffset"
    by (simp add: cv_norm_def maxTemplateOffset_eq)
  have sub: "round32 (83886079 / 1048576) = 80"
    by (simp add: round32_def fl_eval)
  have run: "processFrame ?s ?f
      = Inr ((CalibProcessor_new emptyData Chessboard \<lparr>width = 6, height = 9\<rparr>)
            \<lparr>mTemplateLocations := (80, 0) # replicate 29 (1 / 1048576, 0),
              mCurrentImagePoints := [(80, 0), (100, 0)]\<rparr>)"
    by (simp add: eval_defs sub far)
  have h: "updatedHistory ?s ?f = (80, 0) # replicate 29 (1 / 1048576, 0)"
    by (simp add: updatedHistory_def eval_defs)
  have f: "isTemplateFound ?s ?f"
    by (simp add: isTemplateFound_def eval_defs)
  have "sqrt ((80 - 1 / 1048576)\<^sup>2 + (0 - 0)\<^sup>2) = sqrt ((83886079 / 1048576)\<^sup>2)"
    by simp
  also have "\<dots> = 83886079 / 1048576"
    by simp
  also have "\<dots> < (80::real)"
    by simp
  also have "(80::real) = sqrt (1600\<^sup>2) / 20"
    by simp
  finally have lt: "sqrt ((80 - 1 / 1048576)\<^sup>2 + (0 - 0)\<^sup>2)
      < sqrt (1280\<^sup>2 + 960\<^sup>2) / (20::real)"
    by simp
  from run h f lt show ?thesis
    by (simp add: CalibProcessor_new_def)
qed

text \<open>
  C1, as the code has it. A call of \<open>processFrame\<close> captures (one sample more in the
  dataset, the captured-frame count one higher) exactly when, after this frame's
  update, the anchor history holds exactly 30 entries, the detection of this frame
  succeeded, and the distance between the newest and the oldest stored anchor as the
  source computes it is strictly below 80: the coordinate differences are rounded to
  \<open>float\<close> and their norm \<open>sqrt (dx * dx + dy * dy)\<close> is evaluated in \<open>double\<close>.
  80 is the value of \<open>sqrt (1280\<^sup>2 + 960\<^sup>2) / 20\<close> in \<open>double\<close>. Otherwise the count and the
  dataset are unchanged.
\<close>

theorem processFrame_capture_iff:
  assumes "processFrame s frame = Inr s'"
  shows "maxTemplateOffset = 80 \<and>
   (let h = updatedHistory s frame in
    if length h = 30 \<and> isTemplateFound s frame \<and> cv_norm (pt_sub (hd h) (last h)) < 80
    then mCapuredFrames s' = mCapuredFrames s + 1
         \<and> sampleAppended (mCalibdata s) (mCalibdata s')
    else mCapuredFrames s' = mCapuredFrames s \<and> mCalibdata s' = mCalibdata s)"
proof -
  from assms obtain s2 and a :: Point2f where
    u: "updatedHistory s frame = mTemplateLocations s2" and
    fields: "mCalibdata s2 = mCalibdata s \<and> mBoardType s2 = mBoardType s
      \<and> mBoardSize s2 = mBoardSize s \<and> mCapuredFrames s2 = mCapuredFrames s
      \<and> mNeededFramesNum s2 = mNeededFramesNum s" and
    step: "s' =
      (if length (mTemplateLocations s2) = 30 \<and> isTemplateFound s frame
          \<and> cv_norm (pt_sub (mTemplateLocations s2 ! 0) (mTemplateLocations s2 ! 29))
              < maxTemplateOffset
       then (saveFrameData s2)\<lparr>mCapuredFrames := mCapuredFrames s + 1,
                                 mTemplateLocations := replicate 30 (0, 0)\<rparr>
       else s2)"
    by (rule processFrame_stepE)
  let ?h = "mTemplateLocations s2"
  have ends: "hd ?h = ?h ! 0 \<and> last ?h = ?h ! 29" if "length ?h = 30"
  proof -
    from that have "?h \<noteq> []" by auto
    then show ?thesis
      using that by (simp add: hd_conv_nth last_conv_nth)
  qed
  have main: "if length ?h = 30 \<and> isTemplateFound s frame
       \<and> cv_norm (pt_sub (hd ?h) (last ?h)) < 80
    then mCapuredFrames s' = mCapuredFrames s + 1
         \<and> sampleAppended (mCalibdata s) (mCalibdata s')
    else mCapuredFrames s' = mCapuredFrames s \<and> mCalibdata s' = mCalibdata s"
  proof (cases "length ?h = 30 \<and> isTemplateFound s frame
       \<and> cv_norm (pt_sub (?h ! 0) (?h ! 29)) < maxTemplateOffset")
    case True
    with step have "s' = (saveFrameData s2)\<lparr>mCapuredFrames := mCapuredFrames s + 1,
                                 mTemplateLocations := replicate 30 (0, 0)\<rparr>"
      by simp
    then have "mCapuredFrames s' = mCapuredFrames s + 1"
      and "mCalibdata s' = mCalibdata (saveFrameData s2)"
      by simp_all
    moreover have "sampleAppended (mCalibdata s) (mCalibdata (saveFrameData s2))"
      using saveFrameData_sampleAppended [of s2] fields by simp
    ultimately show ?thesis
      using True ends by (simp add: maxTemplateOffset_eq)
  next
    case False
    with step have "s' = s2" by auto
    with fields have "mCapuredFrames s' = mCapuredFrames s \<and> mCalibdata s' = mCalibdata s"
      by simp
    then show ?thesis
      using False ends by (auto simp add: maxTemplateOffset_eq)
  qed
  with u show ?thesis
    by (simp add: Let_def maxTemplateOffset_eq)
qed

theorem processFrame_capture_iff_witness:
  "processFrame
     ((CalibProcessor_new emptyData Chessboard \<lparr>width = 6, height = 9\<rparr>)
        \<lparr>mTemplateLocations := replicate 29 (10, 10)\<rparr>)
     (chessboardAt [(12, 11), (20, 11)])
   = Inr ((saveFrameData
            ((CalibProcessor_new emptyData Chessboard \<lparr>width = 6, height = 9\<rparr>)
               \<lparr>mTemplateLocations := (12, 11) # replicate 29 (10, 10),
                 mCurrentImagePoints := [(12, 11), (20, 11)]\<rparr>))
          \<lparr>mCapuredFrames := 1, mTemplateLocations := replicate 30 (0, 0)\<rparr>)
   \<and> (let h = updatedHistory
              ((CalibProcessor_new emptyData Chessboard \<lparr>width = 6, height = 9\<rparr>)
                 \<lparr>mTemplateLocations := replicate 29 (10, 10)\<rparr>)
              (chessboardAt [(12, 11), (20, 11)])
       in length h = 30 \<and> hd h = (12, 11) \<and> last h = (10, 10))
   \<and> pt_sub (12, 11) (10, 10) = (2, 1)
   \<and> cv_norm (2, 1) < 80
   \<and> sampleAppended emptyData
        (mCalibdata ((saveFrameData
            ((CalibProcessor_new emptyData Chessboard \<lparr>width = 6, height = 9\<rparr>)
               \<lparr>mTemplateLocations := (12, 11) # replicate 29 (10, 10),
                 mCurrentImagePoints := [(12, 11), (20, 11)]\<rparr>))
          \<lparr>mCapuredFrames := 1, mTemplateLocations := replicate 30 (0, 0)\<rparr>))"
proof -
  let ?s = "(CalibProcessor_new emptyData Chessboard \<lparr>width = 6, height = 9\<rparr>)
        \<lparr>mTemplateLocations := replicate 29 (10, 10)\<rparr>"
  let ?f = "chessboardAt [(12, 11), (20, 11)]"
  let ?s' = "(saveFrameData
            ((CalibProcessor_new emptyData Chessboard \<lparr>width = 6, height = 9\<rparr>)
               \<lparr>mTemplateLocations := (12, 11) # replicate 29 (10, 10),
                 mCurrentImagePoints := [(12, 11), (20, 11)]\<rparr>))
          \<lparr>mCapuredFrames := 1, mTemplateLocations := replicate 30 (0, 0)\<rparr>"
  have run: "processFrame ?s ?f = Inr ?s'"
    by (simp add: eval_defs cv_norm_near saveFrameData_def)
  have h: "updatedHistory ?s ?f = (12, 11) # replicate 29 (10, 10)"
    by (simp add: updatedHistory_def eval_defs)
  have f: "isTemplateFound ?s ?f"
    by (simp add: isTemplateFound_def eval_defs)
  have sub: "pt_sub (12, 11) (10, 10) = (2, 1)"
    by (simp add: pt_sub_def fsub_def)
  have lt: "cv_norm (2, 1) < 80"
    using cv_norm_near [of 2 1] by (simp add: maxTemplateOffset_eq)
  have l: "last ((12, 11) # replicate 29 (10, 10)) = (10::real, 10::real)"
    by simp
  from processFrame_capture_iff [OF run] h f sub lt l
  have "sampleAppended (mCalibdata ?s) (mCalibdata ?s')"
    by (simp add: Let_def)
  moreover have "mCalibdata ?s = emptyData"
    by (simp add: CalibProcessor_new_def)
  ultimately show ?thesis
    using run h l sub lt by (simp add: Let_def)
qed

section \<open>After a capture\<close>

text \<open>
  C2. After a capture the anchor history should be empty. In the source \<open>clear()\<close>
  is followed by \<open>resize(delayBetweenCaptures)\<close>, which leaves 30 points \<open>(0, 0)\<close>:
  a board held steady within 80 pixels of the image origin captures on the 30th frame
  and again on the 31st.
\<close>

theorem second_capture_on_next_frame:
  "case processFrames (CalibProcessor_new emptyData Chessboard \<lparr>width = 6, height = 9\<rparr>)
          (replicate 30 (chessboardAt [(10, 10), (20, 10)])) of
     Inl e \<Rightarrow> False
   | Inr s \<Rightarrow> mCapuredFrames s = 1 \<and> mTemplateLocations s = replicate 30 (0, 0)
        \<and> mTemplateLocations s \<noteq> []
        \<and> (case processFrame s (chessboardAt [(10, 10), (20, 10)]) of
             Inl e \<Rightarrow> False
           | Inr s' \<Rightarrow> mCapuredFrames s' = 2 \<and> length (imagePoints (mCalibdata s')) = 2)"
  by (simp add: eval_defs cv_norm_near numeral_eq_Suc saveFrameData_def)

section \<open>Sequences of frames and missed detections\<close>

text \<open>
  C3 as stated fails: 15 frames with the board found, one frame without, 15 frames with
  the board found again. The longest run of consecutive detections is 15, and the 31st
  frame captures.
\<close>

theorem capture_without_thirty_consecutive:
  "longestDetectionRun (CalibProcessor_new emptyData Chessboard \<lparr>width = 6, height = 9\<rparr>)
       (replicate 15 (chessboardAt [(10, 10), (20, 10)]) @ noDetection
          # replicate 15 (chessboardAt [(10, 10), (20, 10)])) = 15
   \<and> (case processFrames (CalibProcessor_new emptyData Chessboard \<lparr>width = 6, height = 9\<rparr>)
          (replicate 15 (chessboardAt [(10, 10), (20, 10)]) @ noDetection
             # replicate 15 (chessboardAt [(10, 10), (20, 10)])) of
        Inl e \<Rightarrow> False
      | Inr s \<Rightarrow> mCapuredFrames s = 1 \<and> length (imagePoints (mCalibdata s)) = 1)"
  by (simp add: longestDetectionRun_def isTemplateFound_def eval_defs cv_norm_near
        numeral_eq_Suc saveFrameData_def)

text \<open>
  C3, as the code has it. Starting from a newly constructed processor, a frame
  sequence with fewer than 30 frames of successful detection in all (consecutive or
  not) never captures: the captured-frame count stays zero and the dataset is the one
  the processor was given. A missed detection does not reset the history, so 30
  detections fill it also when misses lie between them.
\<close>

theorem no_capture_below_thirty_detections:
  assumes "processFrames (CalibProcessor_new d board boardSize) frames = Inr s"
    and "length (filter (isTemplateFound (CalibProcessor_new d board boardSize)) frames) < 30"
  shows "mCapuredFrames s = 0 \<and> mCalibdata s = d"
proof -
  have "length (mTemplateLocations (CalibProcessor_new d board boardSize)) = 0"
    by (simp add: CalibProcessor_new_def)
  with assms(2) have "length (mTemplateLocations (CalibProcessor_new d board boardSize))
      + length (filter (isTemplateFound (CalibProcessor_new d board boardSize)) frames) < 30"
    by simp
  with assms(1) have "mCapuredFrames s = mCapuredFrames (CalibProcessor_new d board boardSize)
      \<and> mCalibdata s = mCalibdata (CalibProcessor_new d board boardSize)"
    by (rule no_capture_below_capacity)
  then show ?thesis
    by (simp add: CalibProcessor_new_def)
qed

theorem no_capture_below_thirty_detections_witness:
  "processFrames (CalibProcessor_new emptyData Chessboard \<lparr>width = 6, height = 9\<rparr>)
      [chessboardAt [(10, 10), (20, 10)], noDetection, chessboardAt [(11, 10), (21, 10)]]
    = Inr ((CalibProcessor_new emptyData Chessboard \<lparr>width = 6, height = 9\<rparr>)
             \<lparr>mTemplateLocations := [(11, 10), (10, 10)],
               mCurrentImagePoints := [(11, 10), (21, 10)]\<rparr>)
   \<and> length (filter
        (isTemplateFound (CalibProcessor_new emptyData Chessboard \<lparr>width = 6, height = 9\<rparr>))
        [chessboardAt [(10, 10), (20, 10)], noDetection, chessboardAt [(11, 10), (21, 10)]]) = 2
   \<and> mCapuredFrames ((CalibProcessor_new emptyData Chessboard \<lparr>width = 6, height = 9\<rparr>)
             \<lparr>mTemplateLocations := [(11, 10), (10, 10)],
               mCurrentImagePoints := [(11, 10), (21, 10)]\<rparr>) = 0"
proof -
  let ?s = "CalibProcessor_new emptyData Chessboard \<lparr>width = 6, height = 9\<rparr>"
  let ?fs = "[chessboardAt [(10, 10), (20, 10)], noDetection, chessboardAt [(11, 10), (21, 10)]]"
  let ?s' = "?s\<lparr>mTemplateLocations := [(11, 10), (10, 10)],
               mCurrentImagePoints := [(11, 10), (21, 10)]\<rparr>"
  have run: "processFrames ?s ?fs = Inr ?s'"
    by (simp add: eval_defs)
  have cnt: "length (filter (isTemplateFound ?s) ?fs) = 2"
    by (simp add: isTemplateFound_def eval_defs)
  then have "length (filter (isTemplateFound ?s) ?fs) < 30"
    by simp
  with run have "mCapuredFrames ?s' = 0 \<and> mCalibdata ?s' = emptyData"
    by (rule no_capture_below_thirty_detections)
  with run cnt show ?thesis by blast
qed

text \<open>
  C4 as stated fails: after 30 frames of a sliding board the history holds 30 entries,
  the oldest at \<open>x = 3000\<close>; a frame without detection returns the same 30 entries,
  the oldest still among them.
\<close>

theorem dropped_frame_no_eviction:
  "case processFrames (CalibProcessor_new emptyData Chessboard \<lparr>width = 6, height = 9\<rparr>)
          (slidingBoard 30) of
     Inl e \<Rightarrow> False
   | Inr s \<Rightarrow> length (mTemplateLocations s) = 30 \<and> last (mTemplateLocations s) = (3000, 0)
        \<and> \<not> isTemplateFound s noDetection
        \<and> (case processFrame s noDetection of
             Inl e \<Rightarrow> False
           | Inr s' \<Rightarrow> mTemplateLocations s' = mTemplateLocations s
                \<and> length (mTemplateLocations s') = 30
                \<and> last (mTemplateLocations s') = (3000, 0))"
proof -
  have "sqrt 8410000 = 2900"
    by (rule real_sqrt_unique) simp_all
  then have far: "\<not> cv_norm (- 2900, 0) < maxTemplateOffset"
    by (simp add: cv_norm_def maxTemplateOffset_eq)
  show ?thesis
    by (simp add: isTemplateFound_def eval_defs far numeral_eq_Suc)
qed

text \<open>
  C4, as the code has it. On a call where the detection is absent nothing is evicted:
  the history, of at most 30 entries as it is between calls, is returned as it was,
  and nothing is captured. \<open>pop_back\<close> runs only when the history exceeds 30 entries,
  which takes an insertion.
\<close>

theorem dropped_frame_keeps_history:
  assumes "processFrame s frame = Inr s'"
    and "\<not> isTemplateFound s frame"
    and "length (mTemplateLocations s) \<le> 30"
  shows "mTemplateLocations s' = mTemplateLocations s
    \<and> mCapuredFrames s' = mCapuredFrames s \<and> mCalibdata s' = mCalibdata s"
  using assms by (rule processFrame_not_found)

theorem dropped_frame_keeps_history_witness:
  "processFrame
      ((CalibProcessor_new emptyData Chessboard \<lparr>width = 6, height = 9\<rparr>)
         \<lparr>mTemplateLocations := replicate 30 (10, 10),
           mCurrentImagePoints := [(10, 10), (20, 10)]\<rparr>) noDetection
    = Inr ((CalibProcessor_new emptyData Chessboard \<lparr>width = 6, height = 9\<rparr>)
         \<lparr>mTemplateLocations := replicate 30 (10, 10)\<rparr>)
   \<and> \<not> isTemplateFound
        ((CalibProcessor_new emptyData Chessboard \<lparr>width = 6, height = 9\<rparr>)
           \<lparr>mTemplateLocations := replicate 30 (10, 10),
             mCurrentImagePoints := [(10, 10), (20, 10)]\<rparr>) noDetection
   \<and> mTemplateLocations
        ((CalibProcessor_new emptyData Chessboard \<lparr>width = 6, height = 9\<rparr>)
           \<lparr>mTemplateLocations := replicate 30 (10, 10)\<rparr>)
      = replicate 30 (10, 10)"
proof -
  let ?i = "CalibProcessor_new emptyData Chessboard \<lparr>width = 6, height = 9\<rparr>"
  let ?s = "?i\<lparr>mTemplateLocations := replicate 30 (10, 10),
              mCurrentImagePoints := [(10, 10), (20, 10)]\<rparr>"
  let ?s' = "?i\<lparr>mTemplateLocations := replicate 30 (10, 10)\<rparr>"
  have run: "processFrame ?s noDetection = Inr ?s'"
    by (simp add: eval_defs)
  have nf: "\<not> isTemplateFound ?s noDetection"
    by (simp add: isTemplateFound_def eval_defs)
  have "length (mTemplateLocations ?s) \<le> 30"
    by simp
  with run nf have "mTemplateLocations ?s' = mTemplateLocations ?s
    \<and> mCapuredFrames ?s' = mCapuredFrames ?s \<and> mCalibdata ?s' = mCalibdata ?s"
    by (rule dropped_frame_keeps_history)
  then have "mTemplateLocations ?s' = replicate 30 (10, 10)"
    by simp
  with run nf show ?thesis by blast
qed

section \<open>The anchor history\<close>



section \<open>The double circle grid\<close>

text \<open>
  What \<open>detectAndParseDualACircles\<close> returns: found exactly when both grids are
  found; then the white points followed by the black points, with their first point
  as the new anchor; no points when only the black grid is missing.
\<close>

lemma detectAndParseDualACircles_outcome:
  assumes "detectAndParseDualACircles s frame = Inr (found, s1)"
  shows "(found \<longleftrightarrow> fst (findCirclesGridWhite frame) \<and> fst (findCirclesGridBlack frame))
    \<and> (found \<longrightarrow>
          mCurrentImagePoints s1
            = snd (findCirclesGridWhite frame) @ snd (findCirclesGridBlack frame)
          \<and> mTemplateLocations s1
            = hd (snd (findCirclesGridWhite frame) @ snd (findCirclesGridBlack frame))
                # mTemplateLocations s)
    \<and> (fst (findCirclesGridWhite frame) \<and> \<not> fst (findCirclesGridBlack frame) \<longrightarrow>
          mCurrentImagePoints s1 = [])
    \<and> (\<not> fst (findCirclesGridWhite frame) \<longrightarrow>
          mCurrentImagePoints s1 = snd (findCirclesGridWhite frame))"
  using assms
  by (auto simp: detectAndParseDualACircles_def Let_def split: if_splits list.splits)

text \<open>
  C7. When a sub-grid is missing no points should be retained. The source clears
  \<open>mCurrentImagePoints\<close> when the black grid is missing, and returns at once when the
  white grid is missing: the centres the detector wrote for the white grid stay.
\<close>

theorem white_grid_missing_points_kept:
  "detectAndParseDualACircles
      ((CalibProcessor_new emptyData DoubleAcirclesGrid \<lparr>width = 1, height = 1\<rparr>)
         \<lparr>mCurrentImagePoints := []\<rparr>) whiteGridMissing
    = Inr (False, (CalibProcessor_new emptyData DoubleAcirclesGrid \<lparr>width = 1, height = 1\<rparr>)
                     \<lparr>mCurrentImagePoints := [(3, 4)]\<rparr>)
   \<and> processFrame (CalibProcessor_new emptyData DoubleAcirclesGrid \<lparr>width = 1, height = 1\<rparr>)
        whiteGridMissing
    = Inr ((CalibProcessor_new emptyData DoubleAcirclesGrid \<lparr>width = 1, height = 1\<rparr>)
             \<lparr>mCurrentImagePoints := [(3, 4)]\<rparr>)"
  by (simp add: eval_defs whiteGridMissing_def)

section \<open>resetState\<close>

text \<open>
  C8. \<open>resetState\<close> sets the captured-frame count to zero and the anchor history to
  empty, and leaves every other member as it was: the dataset with all its entries
  (image points, object points, charuco corners and ids), the target frame count, the
  board type and size, and the buffers of the current detection.
\<close>

theorem resetState_frame:
  "mCapuredFrames (resetState s) = 0
   \<and> mTemplateLocations (resetState s) = []
   \<and> mCalibdata (resetState s) = mCalibdata s
   \<and> imagePoints (mCalibdata (resetState s)) = imagePoints (mCalibdata s)
   \<and> objectPoints (mCalibdata (resetState s)) = objectPoints (mCalibdata s)
   \<and> allCharucoCorners (mCalibdata (resetState s)) = allCharucoCorners (mCalibdata s)
   \<and> allCharucoIds (mCalibdata (resetState s)) = allCharucoIds (mCalibdata s)
   \<and> mNeededFramesNum (resetState s) = mNeededFramesNum s
   \<and> mBoardType (resetState s) = mBoardType s
   \<and> mBoardSize (resetState s) = mBoardSize s
   \<and> mCurrentImagePoints (resetState s) = mCurrentImagePoints s
   \<and> mCurrentCharucoCorners (resetState s) = mCurrentCharucoCorners s
   \<and> mCurrentCharucoIds (resetState s) = mCurrentCharucoIds s"
  by (simp add: resetState_def)

section \<open>Object points: the loops as row-major lists\<close>

lemma columnLoop_eq: "columnLoop pt w j pts = pts @ map pt [j..w - 1]"
proof (induction pt w j pts rule: columnLoop.induct)
  case (1 pt w j pts)
  show ?case
  proof (cases "j < w")
    case True
    then have "[j..w - 1] = j # [j + 1..w - 1]"
      by (simp add: upto_rec1)
    with True 1 show ?thesis
      by (simp add: columnLoop.simps [of pt w j pts])
  next
    case False
    then show ?thesis
      by (simp add: columnLoop.simps [of pt w j pts])
  qed
qed

lemma rowLoop_eq:
  "rowLoop pt sz i pts =
    pts @ concat (map (\<lambda>i. map (\<lambda>j. pt j i) [0..width sz - 1]) [i..height sz - 1])"
proof (induction pt sz i pts rule: rowLoop.induct)
  case (1 pt sz i pts)
  show ?case
  proof (cases "i < height sz")
    case True
    then have "[i..height sz - 1] = i # [i + 1..height sz - 1]"
      by (simp add: upto_rec1)
    with True 1 show ?thesis
      by (simp add: rowLoop.simps [of pt sz i pts] columnLoop_eq)
  next
    case False
    then show ?thesis
      by (simp add: rowLoop.simps [of pt sz i pts])
  qed
qed

lemma rowLoop_rowMajor:
  "rowLoop pt sz 0 pts = pts @ rowMajor pt (width sz) (height sz)"
  by (simp add: rowLoop_eq rowMajor_def)

lemma upto_int_upt: "[0..int k - 1] = map int [0..<k]"
proof (induction k)
  case 0
  then show ?case by simp
next
  case (Suc k)
  have "[0..int (Suc k) - 1] = [0..int k - 1] @ [int k]"
    by (simp add: upto_rec2)
  with Suc show ?case by simp
qed

lemma upto_as_upt: "[0..n - 1] = map int [0..<nat n]"
proof (cases "0 \<le> n")
  case True
  then show ?thesis
    using upto_int_upt [of "nat n"] by simp
next
  case False
  then show ?thesis by simp
qed

lemma length_rowMajor: "length (rowMajor pt W H) = nat W * nat H"
proof -
  have "length (concat (map (\<lambda>i. map (\<lambda>j. pt j i) [0..W - 1]) xs)) = nat W * length xs" for xs
    by (induction xs) simp_all
  then show ?thesis
    by (simp add: rowMajor_def)
qed

lemma concat_rows_nth:
  assumes "i < n" and "j < w"
  shows "concat (map (\<lambda>i. map (\<lambda>j. f j i) [0..<w]) [0..<n]) ! (i * w + j) = f j i"
  using assms
proof (induction n)
  case 0
  then show ?case by simp
next
  case (Suc n)
  let ?rows = "\<lambda>n. concat (map (\<lambda>i. map (\<lambda>j. f j i) [0..<w]) [0..<n])"
  have len: "length (?rows n) = n * w" for n
    by (induction n) simp_all
  show ?case
  proof (cases "i < n")
    case True
    then have "Suc i \<le> n" by simp
    then have "Suc i * w \<le> n * w" by (rule mult_le_mono1)
    with \<open>j < w\<close> have "i * w + j < n * w" by simp
    with True Suc show ?thesis
      by (simp add: nth_append len)
  next
    case False
    with Suc.prems have "i = n" by simp
    with \<open>j < w\<close> show ?thesis
      by (simp add: nth_append len)
  qed
qed

lemma rowMajor_nth:
  assumes "0 \<le> i" "i < H" "0 \<le> j" "j < W"
  shows "rowMajor pt W H ! nat (i * W + j) = pt j i"
proof -
  have "rowMajor pt W H =
      concat (map (\<lambda>i. map (\<lambda>j. pt (int j) (int i)) [0..<nat W]) [0..<nat H])"
    by (simp add: rowMajor_def upto_as_upt comp_def)
  moreover have "nat (i * W + j) = nat i * nat W + nat j"
    using assms by (simp add: nat_add_distrib nat_mult_distrib)
  ultimately show ?thesis
    using concat_rows_nth [of "nat i" "nat H" "nat j" "nat W" "\<lambda>j i. pt (int j) (int i)"] assms
    by simp
qed

text \<open>The loops of \<open>saveFrameData\<close> for the three geometric board types.\<close>

lemma saveFrameData_chessboard:
  assumes "mBoardType s = Chessboard"
  shows "objectPoints (mCalibdata (saveFrameData s)) =
      objectPoints (mCalibdata s) @
        [rowMajor chessboardPoint (width (mBoardSize s)) (height (mBoardSize s))]"
  using assms by (simp add: saveFrameData_def rowLoop_rowMajor Let_def)

lemma saveFrameData_acircles:
  assumes "mBoardType s = AcirclesGrid"
  shows "objectPoints (mCalibdata (saveFrameData s)) =
      objectPoints (mCalibdata s) @
        [rowMajor acirclesPoint (width (mBoardSize s)) (height (mBoardSize s))]"
  using assms by (simp add: saveFrameData_def rowLoop_rowMajor Let_def)

lemma saveFrameData_double:
  assumes "mBoardType s = DoubleAcirclesGrid"
  shows "objectPoints (mCalibdata (saveFrameData s)) =
      objectPoints (mCalibdata s) @
        [rowMajor (whitePoint (mBoardSize s)) (width (mBoardSize s)) (height (mBoardSize s))
         @ rowMajor (blackPoint (mBoardSize s)) (width (mBoardSize s)) (height (mBoardSize s))]"
  using assms by (simp add: saveFrameData_def rowLoop_rowMajor Let_def)

text \<open>The \<open>float\<close> nearest 32.6, which is twice the \<open>float\<close> nearest 16.3.\<close>

lemma round32_32_6: "round32 32.6 = 4272947 / 131072"
  by (simp add: round32_def fl_eval)

lemma chessboard_6x9_entry:
  "rowMajor chessboardPoint 6 9 ! nat (1 * 6 + 2) = (4272947 / 131072, 4272947 / 262144, 0)"
proof -
  have "rowMajor chessboardPoint 6 9 ! nat (1 * 6 + 2) = chessboardPoint 2 1"
    by (rule rowMajor_nth) simp_all
  also have "\<dots> = (4272947 / 131072, 4272947 / 262144, 0)"
    by (simp add: chessboardPoint_def fmul_def float_of_int_def squareSize_eq round32_def fl_eval)
  finally show ?thesis .
qed

lemma double_1x2_points:
  "rowMajor (whitePoint \<lparr>width = 1, height = 2\<rparr>) 1 2
     @ rowMajor (blackPoint \<lparr>width = 1, height = 2\<rparr>) 1 2
   = [(- (9666559 / 65536), - (4272947 / 524288), 0),
      (- (10734795 / 65536), - (12818841 / 524288), 0),
      (10734797 / 65536, - (4272947 / 524288), 0),
      (295 / 2, - (12818841 / 524288), 0)]"
proof -
  have cx: "gridCenterX \<lparr>width = 1, height = 2\<rparr> = 10734797 / 65536"
    by (simp add: gridCenterX_def fadd_def fsub_def fmul_def fdiv_def float_of_int_def
          squareSize_eq acircleGrid2Distance_eq round32_def fl_eval)
  have cy: "gridCenterY \<lparr>width = 1, height = 2\<rparr> = 4272947 / 524288"
    by (simp add: gridCenterY_def fmul_def fdiv_def float_of_int_def
          squareSize_eq round32_def fl_eval)
  have w0: "whitePoint \<lparr>width = 1, height = 2\<rparr> 0 0
      = (- (9666559 / 65536), - (4272947 / 524288), 0)"
    by (simp add: whitePoint_def cx cy fadd_def fsub_def fmul_def float_of_int_def
          squareSize_eq acircleGrid2Distance_eq round32_def fl_eval)
  have w1: "whitePoint \<lparr>width = 1, height = 2\<rparr> 0 1
      = (- (10734795 / 65536), - (12818841 / 524288), 0)"
    by (simp add: whitePoint_def cx cy fadd_def fsub_def fmul_def float_of_int_def
          squareSize_eq acircleGrid2Distance_eq round32_def fl_eval)
  have b0: "blackPoint \<lparr>width = 1, height = 2\<rparr> 0 0
      = (10734797 / 65536, - (4272947 / 524288), 0)"
    by (simp add: blackPoint_def cx cy fsub_def fmul_def float_of_int_def
          squareSize_eq round32_def fl_eval)
  have b1: "blackPoint \<lparr>width = 1, height = 2\<rparr> 0 1
      = (295 / 2, - (12818841 / 524288), 0)"
    by (simp add: blackPoint_def cx cy fsub_def fmul_def float_of_int_def
          squareSize_eq round32_def fl_eval)
  show ?thesis
    by (simp add: rowMajor_def upto_rec1 w0 w1 b0 b1)
qed

text \<open>
  C5 as stated fails. A product with the real number 16.3 is not what the source
  stores: the spacing is the \<open>float\<close> \<open>16.3f = 4272947 / 262144\<close>, and for a 6 x 9
  Chessboard the point at \<open>j = 2\<close>, \<open>i = 1\<close> is \<open>(4272947 / 131072, 4272947 / 262144, 0)\<close>,
  not \<open>(32.6, 16.3, 0)\<close>.
\<close>

theorem chessboard_point_is_float:
  "last (objectPoints (mCalibdata
      (saveFrameData (CalibProcessor_new emptyData Chessboard \<lparr>width = 6, height = 9\<rparr>))))
     ! nat (1 * 6 + 2)
    = (4272947 / 131072, 4272947 / 262144, 0)
   \<and> (4272947 / 131072, 4272947 / 262144, 0) \<noteq> (32.6 :: real, 16.3 :: real, 0 :: real)"
proof -
  let ?c = "CalibProcessor_new emptyData Chessboard \<lparr>width = 6, height = 9\<rparr>"
  have "mBoardType ?c = Chessboard"
    by (simp add: CalibProcessor_new_def)
  then have "last (objectPoints (mCalibdata (saveFrameData ?c)))
      = rowMajor chessboardPoint (width (mBoardSize ?c)) (height (mBoardSize ?c))"
    by (simp add: saveFrameData_chessboard)
  then have "last (objectPoints (mCalibdata (saveFrameData ?c))) ! nat (1 * 6 + 2)
      = rowMajor chessboardPoint 6 9 ! nat (1 * 6 + 2)"
    by (simp add: CalibProcessor_new_def)
  with chessboard_6x9_entry show ?thesis
    by simp
qed

text \<open>
  C5, as the code has it. On capture, \<open>saveFrameData\<close> appends one object-point list,
  in row-major order (rows \<open>i = 0..H-1\<close> outside, columns \<open>j = 0..W-1\<close> inside),
  computed in \<open>float\<close> with the spacing \<open>16.3f\<close>, the \<open>float\<close> nearest 16.3: for a
  Chessboard the point at \<open>(j, i)\<close> is \<open>(j * 16.3f, i * 16.3f, 0)\<close>, for an
  AsymmetricCircleGrid it is \<open>((2 * j + i mod 2) * 16.3f, i * 16.3f, 0)\<close>, each integer
  converted to \<open>float\<close> and each product rounded to \<open>float\<close>. For a 6 x 9 Chessboard
  the point at \<open>j = 2\<close>, \<open>i = 1\<close> (position \<open>1 * 6 + 2\<close> of the list) is
  \<open>(4272947 / 131072, 4272947 / 262144, 0)\<close>: the \<open>float\<close>s nearest 32.6 and 16.3.
\<close>

theorem saveFrameData_grid_objectPoints:
  "(mBoardType s = Chessboard \<longrightarrow>
      objectPoints (mCalibdata (saveFrameData s)) =
        objectPoints (mCalibdata s) @
          [rowMajor (\<lambda>j i. (round32 (round32 (of_int j) * round32 16.3),
                            round32 (round32 (of_int i) * round32 16.3), 0))
             (width (mBoardSize s)) (height (mBoardSize s))])
   \<and> (mBoardType s = AcirclesGrid \<longrightarrow>
      objectPoints (mCalibdata (saveFrameData s)) =
        objectPoints (mCalibdata s) @
          [rowMajor (\<lambda>j i. (round32 (round32 (of_int (2 * j + i mod 2)) * round32 16.3),
                            round32 (round32 (of_int i) * round32 16.3), 0))
             (width (mBoardSize s)) (height (mBoardSize s))])
   \<and> (mBoardType s = Chessboard \<and> width (mBoardSize s) = 6 \<and> height (mBoardSize s) = 9 \<longrightarrow>
      last (objectPoints (mCalibdata (saveFrameData s))) ! nat (1 * 6 + 2)
        = (4272947 / 131072, 4272947 / 262144, 0))
   \<and> round32 32.6 = 4272947 / 131072 \<and> round32 16.3 = 4272947 / 262144"
proof -
  have chess: "chessboardPoint =
      (\<lambda>j i. (round32 (round32 (of_int j) * round32 16.3),
               round32 (round32 (of_int i) * round32 16.3), 0))"
    by (simp add: chessboardPoint_def fmul_def float_of_int_def squareSize_def fun_eq_iff)
  have circ: "acirclesPoint =
      (\<lambda>j i. (round32 (round32 (of_int (2 * j + i mod 2)) * round32 16.3),
               round32 (round32 (of_int i) * round32 16.3), 0))"
    by (simp add: acirclesPoint_def fmul_def float_of_int_def squareSize_def fun_eq_iff)
  have c: "last (objectPoints (mCalibdata (saveFrameData s))) ! nat (1 * 6 + 2)
      = (4272947 / 131072, 4272947 / 262144, 0)"
    if "mBoardType s = Chessboard" "width (mBoardSize s) = 6" "height (mBoardSize s) = 9"
    using that saveFrameData_chessboard [of s] chessboard_6x9_entry by simp
  have s: "round32 16.3 = 4272947 / 262144"
    using squareSize_eq by (simp add: squareSize_def)
  from saveFrameData_chessboard [of s] saveFrameData_acircles [of s] c s round32_32_6
  show ?thesis
    unfolding chess circ by blast
qed

theorem saveFrameData_grid_objectPoints_witness:
  "mBoardType (CalibProcessor_new emptyData Chessboard \<lparr>width = 6, height = 9\<rparr>) = Chessboard
   \<and> mBoardType (CalibProcessor_new emptyData AcirclesGrid \<lparr>width = 1, height = 2\<rparr>)
       = AcirclesGrid
   \<and> last (objectPoints (mCalibdata
        (saveFrameData (CalibProcessor_new emptyData Chessboard \<lparr>width = 6, height = 9\<rparr>)))) ! 8
      = (4272947 / 131072, 4272947 / 262144, 0)
   \<and> objectPoints (mCalibdata
        (saveFrameData (CalibProcessor_new emptyData AcirclesGrid \<lparr>width = 1, height = 2\<rparr>)))
      = objectPoints emptyData
          @ [[(0, 0, 0), (4272947 / 262144, 4272947 / 262144, 0)]]"
proof -
  let ?c = "CalibProcessor_new emptyData Chessboard \<lparr>width = 6, height = 9\<rparr>"
  let ?a = "CalibProcessor_new emptyData AcirclesGrid \<lparr>width = 1, height = 2\<rparr>"
  have hc: "mBoardType ?c = Chessboard \<and> width (mBoardSize ?c) = 6 \<and> height (mBoardSize ?c) = 9"
    by (simp add: CalibProcessor_new_def)
  have ha: "mBoardType ?a = AcirclesGrid"
    by (simp add: CalibProcessor_new_def)
  from saveFrameData_grid_objectPoints [of ?c] hc
  have "last (objectPoints (mCalibdata (saveFrameData ?c))) ! nat (1 * 6 + 2)
      = (4272947 / 131072, 4272947 / 262144, 0)"
    by blast
  then have 1: "last (objectPoints (mCalibdata (saveFrameData ?c))) ! 8
      = (4272947 / 131072, 4272947 / 262144, 0)"
    by simp
  from saveFrameData_grid_objectPoints [of ?a] ha
  have "objectPoints (mCalibdata (saveFrameData ?a)) =
      objectPoints (mCalibdata ?a) @
        [rowMajor (\<lambda>j i. (round32 (round32 (of_int (2 * j + i mod 2)) * round32 16.3),
                          round32 (round32 (of_int i) * round32 16.3), 0))
           (width (mBoardSize ?a)) (height (mBoardSize ?a))]"
    and s: "round32 16.3 = 4272947 / 262144"
    by blast+
  then have 2: "objectPoints (mCalibdata (saveFrameData ?a)) =
      objectPoints emptyData @ [[(0, 0, 0), (4272947 / 262144, 4272947 / 262144, 0)]]"
    by (simp add: CalibProcessor_new_def rowMajor_def upto_rec1 round32_def fl_eval)
  from hc ha 1 2 show ?thesis by blast
qed

text \<open>
  C6 as stated fails. For a 1 x 2 double grid the formulas of the claim, with
  \<open>s = 16.3\<close> and \<open>gap = 295\<close>, give the white point \<open>(j, i) = (0, 0)\<close> as
  \<open>(-147.5, -8.15, 0)\<close>; the source, in \<open>float\<close>, stores
  \<open>(-9666559 / 65536, -4272947 / 524288, 0)\<close>.
\<close>

theorem double_grid_point_is_float:
  "hd (last (objectPoints (mCalibdata
      (saveFrameData
        (CalibProcessor_new emptyData DoubleAcirclesGrid \<lparr>width = 1, height = 2\<rparr>)))))
    = (- (9666559 / 65536), - (4272947 / 524288), 0)
   \<and> (let W = 1 :: int; H = 2 :: int; sp = 16.3 :: real; gap = 295 :: real;
           cx = real_of_int (2 * (W - 1) + 1) * sp + gap / 2;
           cy = real_of_int (H - 1) * sp / 2
       in (- (real_of_int (2 * 0 + 0 mod 2) * sp + gap
               + real_of_int (2 * (W - 1) + 1) * sp - cx),
           - (real_of_int 0 * sp) - cy, 0 :: real))
      = (- 147.5, - 8.15, 0)
   \<and> (- (9666559 / 65536), - (4272947 / 524288), 0) \<noteq> (- 147.5 :: real, - 8.15 :: real, 0 :: real)"
proof -
  let ?d = "CalibProcessor_new emptyData DoubleAcirclesGrid \<lparr>width = 1, height = 2\<rparr>"
  have "mBoardType ?d = DoubleAcirclesGrid"
    by (simp add: CalibProcessor_new_def)
  then have "last (objectPoints (mCalibdata (saveFrameData ?d)))
      = rowMajor (whitePoint (mBoardSize ?d)) (width (mBoardSize ?d)) (height (mBoardSize ?d))
        @ rowMajor (blackPoint (mBoardSize ?d)) (width (mBoardSize ?d)) (height (mBoardSize ?d))"
    by (simp add: saveFrameData_double)
  then have "last (objectPoints (mCalibdata (saveFrameData ?d)))
      = rowMajor (whitePoint \<lparr>width = 1, height = 2\<rparr>) 1 2
        @ rowMajor (blackPoint \<lparr>width = 1, height = 2\<rparr>) 1 2"
    by (simp add: CalibProcessor_new_def)
  then have "hd (last (objectPoints (mCalibdata (saveFrameData ?d))))
      = (- (9666559 / 65536), - (4272947 / 524288), 0)"
    by (simp only: double_1x2_points list.sel)
  then show ?thesis
    by (simp add: Let_def)
qed

text \<open>
  C6, as the code has it. For a DoubleAsymmetricCircleGrid the appended object points
  are the white grid followed by the black grid, each in row-major order, computed
  in \<open>float\<close> with \<open>s = 16.3f\<close> and \<open>gap = 295\<close>: every operand that is an integer is
  converted to \<open>float\<close> and every operation is rounded to \<open>float\<close>, in the order
  written. The centre is \<open>cx = (2 * (W - 1) + 1) * s + gap / 2\<close> (with \<open>W - 1\<close>,
  \<open>2 * \<dots>\<close> and \<open>\<dots> + 1\<close> in \<open>float\<close>) and \<open>cy = (H - 1) * s / 2\<close>; the white point
  \<open>(j, i)\<close> is \<open>(-((2 * j + i mod 2) * s + gap + (2 * (W - 1) + 1) * s - cx), -(i * s) - cy, 0)\<close>
  and the black point \<open>(j, i)\<close> is \<open>(-((2 * j + i mod 2) * s - cx), -(i * s) - cy, 0)\<close>.
\<close>

theorem saveFrameData_double_objectPoints:
  "mBoardType s = DoubleAcirclesGrid \<Longrightarrow>
    objectPoints (mCalibdata (saveFrameData s)) =
      objectPoints (mCalibdata s) @
        [(let W = width (mBoardSize s);
              H = height (mBoardSize s);
              sp = round32 16.3;
              gap = 295;
              cx = fadd (fmul (fadd (fmul 2 (fsub (float_of_int W) 1)) 1) sp) (fdiv gap 2);
              cy = fdiv (fmul (float_of_int (H - 1)) sp) 2
          in rowMajor (\<lambda>j i.
                 (- (fsub (fadd (fadd (fmul (float_of_int (2 * j + i mod 2)) sp) gap)
                                (fmul (float_of_int (2 * (W - 1) + 1)) sp)) cx),
                  fsub (- (fmul (float_of_int i) sp)) cy, 0)) W H
             @ rowMajor (\<lambda>j i.
                 (- (fsub (fmul (float_of_int (2 * j + i mod 2)) sp) cx),
                  fsub (- (fmul (float_of_int i) sp)) cy, 0)) W H)]"
proof -
  assume bt: "mBoardType s = DoubleAcirclesGrid"
  let ?W = "width (mBoardSize s)" and ?H = "height (mBoardSize s)"
  let ?cx = "fadd (fmul (fadd (fmul 2 (fsub (float_of_int ?W) 1)) 1) (round32 16.3))
               (fdiv 295 2)"
  let ?cy = "fdiv (fmul (float_of_int (?H - 1)) (round32 16.3)) 2"
  have cx: "gridCenterX (mBoardSize s) = ?cx"
    by (simp add: gridCenterX_def squareSize_def acircleGrid2Distance_eq)
  have cy: "gridCenterY (mBoardSize s) = ?cy"
    by (simp add: gridCenterY_def squareSize_def)
  have w: "whitePoint (mBoardSize s) =
      (\<lambda>j i. (- (fsub (fadd (fadd (fmul (float_of_int (2 * j + i mod 2)) (round32 16.3)) 295)
                             (fmul (float_of_int (2 * (?W - 1) + 1)) (round32 16.3))) ?cx),
               fsub (- (fmul (float_of_int i) (round32 16.3))) ?cy, 0))"
    unfolding whitePoint_def cx cy
    by (simp add: squareSize_def acircleGrid2Distance_eq fun_eq_iff)
  have b: "blackPoint (mBoardSize s) =
      (\<lambda>j i. (- (fsub (fmul (float_of_int (2 * j + i mod 2)) (round32 16.3)) ?cx),
               fsub (- (fmul (float_of_int i) (round32 16.3))) ?cy, 0))"
    unfolding blackPoint_def cx cy
    by (simp add: squareSize_def fun_eq_iff)
  from bt have "objectPoints (mCalibdata (saveFrameData s)) =
      objectPoints (mCalibdata s) @
        [rowMajor (whitePoint (mBoardSize s)) ?W ?H @ rowMajor (blackPoint (mBoardSize s)) ?W ?H]"
    by (rule saveFrameData_double)
  then show ?thesis
    unfolding w b Let_def .
qed

theorem saveFrameData_double_objectPoints_witness:
  "mBoardType (CalibProcessor_new emptyData DoubleAcirclesGrid \<lparr>width = 1, height = 2\<rparr>)
     = DoubleAcirclesGrid
   \<and> objectPoints (mCalibdata
        (saveFrameData
          (CalibProcessor_new emptyData DoubleAcirclesGrid \<lparr>width = 1, height = 2\<rparr>)))
      = objectPoints emptyData @
          [[(- (9666559 / 65536), - (4272947 / 524288), 0),
            (- (10734795 / 65536), - (12818841 / 524288), 0),
            (10734797 / 65536, - (4272947 / 524288), 0),
            (295 / 2, - (12818841 / 524288), 0)]]"
proof -
  let ?d = "CalibProcessor_new emptyData DoubleAcirclesGrid \<lparr>width = 1, height = 2\<rparr>"
  have bt: "mBoardType ?d = DoubleAcirclesGrid"
    by (simp add: CalibProcessor_new_def)
  have sz: "mBoardSize ?d = \<lparr>width = 1, height = 2\<rparr>" "mCalibdata ?d = emptyData"
    by (simp_all add: CalibProcessor_new_def)
  from saveFrameData_double_objectPoints [OF bt]
  have "objectPoints (mCalibdata (saveFrameData ?d)) =
      objectPoints emptyData @
          [[(- (9666559 / 65536), - (4272947 / 524288), 0),
            (- (10734795 / 65536), - (12818841 / 524288), 0),
            (10734797 / 65536, - (4272947 / 524288), 0),
            (295 / 2, - (12818841 / 524288), 0)]]"
    by (simp add: sz Let_def rowMajor_def upto_rec1 fadd_def fsub_def fmul_def fdiv_def
          float_of_int_def round32_def fl_eval)
  with bt show ?thesis
    by blast
qed

section \<open>The dataset over a session\<close>

text \<open>What \<open>saveFrameData\<close> appends, by board type.\<close>

lemma saveFrameData_geometric:
  assumes "mBoardType s \<noteq> chAruco"
  shows "\<exists>pts. imagePoints (mCalibdata (saveFrameData s))
          = imagePoints (mCalibdata s) @ [mCurrentImagePoints s]
    \<and> objectPoints (mCalibdata (saveFrameData s)) = objectPoints (mCalibdata s) @ [pts]
    \<and> length pts =
        (if mBoardType s = DoubleAcirclesGrid then 2 else 1)
          * (nat (width (mBoardSize s)) * nat (height (mBoardSize s)))
    \<and> allCharucoCorners (mCalibdata (saveFrameData s)) = allCharucoCorners (mCalibdata s)
    \<and> allCharucoIds (mCalibdata (saveFrameData s)) = allCharucoIds (mCalibdata s)"
  using assms
  by (cases "mBoardType s")
     (simp_all add: saveFrameData_def Let_def rowLoop_rowMajor length_rowMajor)

lemma saveFrameData_charuco:
  assumes "mBoardType s = chAruco"
  shows "allCharucoCorners (mCalibdata (saveFrameData s))
          = allCharucoCorners (mCalibdata s) @ [mCurrentCharucoCorners s]
    \<and> allCharucoIds (mCalibdata (saveFrameData s))
          = allCharucoIds (mCalibdata s) @ [mCurrentCharucoIds s]
    \<and> imagePoints (mCalibdata (saveFrameData s)) = imagePoints (mCalibdata s)
    \<and> objectPoints (mCalibdata (saveFrameData s)) = objectPoints (mCalibdata s)"
  using assms by (simp add: saveFrameData_def Let_def)

text \<open>The dataset after one call: as it was, or with what \<open>saveFrameData\<close> appends.\<close>

lemma processFrame_dataset:
  assumes "processFrame s frame = Inr s'"
  obtains (same) "mCalibdata s' = mCalibdata s"
  | (saved) s2 where "mCalibdata s' = mCalibdata (saveFrameData s2)"
      and "mCalibdata s2 = mCalibdata s" and "mBoardType s2 = mBoardType s"
      and "mBoardSize s2 = mBoardSize s"
proof -
  from assms obtain s2 and a :: Point2f where
    fields: "mCalibdata s2 = mCalibdata s \<and> mBoardType s2 = mBoardType s
      \<and> mBoardSize s2 = mBoardSize s \<and> mCapuredFrames s2 = mCapuredFrames s
      \<and> mNeededFramesNum s2 = mNeededFramesNum s" and
    step: "s' =
      (if length (mTemplateLocations s2) = 30 \<and> isTemplateFound s frame
          \<and> cv_norm (pt_sub (mTemplateLocations s2 ! 0) (mTemplateLocations s2 ! 29))
              < maxTemplateOffset
       then (saveFrameData s2)\<lparr>mCapuredFrames := mCapuredFrames s + 1,
                                 mTemplateLocations := replicate 30 (0, 0)\<rparr>
       else s2)"
    by (rule processFrame_stepE)
  show ?thesis
  proof (cases "length (mTemplateLocations s2) = 30 \<and> isTemplateFound s frame
          \<and> cv_norm (pt_sub (mTemplateLocations s2 ! 0) (mTemplateLocations s2 ! 29))
              < maxTemplateOffset")
    case True
    with step have "mCalibdata s' = mCalibdata (saveFrameData s2)" by simp
    moreover from fields have "mCalibdata s2 = mCalibdata s" "mBoardType s2 = mBoardType s"
      "mBoardSize s2 = mBoardSize s" by simp_all
    ultimately show ?thesis by (rule saved)
  next
    case False
    with step fields have "mCalibdata s' = mCalibdata s" by simp
    then show ?thesis by (rule same)
  qed
qed

text \<open>
  The relation between the dataset before and after any number of calls, for a
  processor of board type \<open>board\<close> and board size \<open>sz\<close>.
\<close>

lemma processFrames_dataset:
  assumes "processFrames s frames = Inr s'"
  shows "\<exists>ips ops ccs cis.
      imagePoints (mCalibdata s') = imagePoints (mCalibdata s) @ ips
    \<and> objectPoints (mCalibdata s') = objectPoints (mCalibdata s) @ ops
    \<and> allCharucoCorners (mCalibdata s') = allCharucoCorners (mCalibdata s) @ ccs
    \<and> allCharucoIds (mCalibdata s') = allCharucoIds (mCalibdata s) @ cis
    \<and> length ips = length ops \<and> length ccs = length cis
    \<and> (\<forall>pts \<in> set ops. length pts =
          (if mBoardType s = DoubleAcirclesGrid then 2 else 1)
            * (nat (width (mBoardSize s)) * nat (height (mBoardSize s))))
    \<and> (mBoardType s = chAruco \<longrightarrow> ips = [])
    \<and> (mBoardType s \<noteq> chAruco \<longrightarrow> ccs = [])"
  using assms
proof (induction frames arbitrary: s)
  case Nil
  then show ?case by simp
next
  case (Cons frame frames)
  from Cons.prems obtain s1 where
    one: "processFrame s frame = Inr s1" and rest: "processFrames s1 frames = Inr s'"
    by (rule processFrames_ConsE)
  from one have board: "mBoardType s1 = mBoardType s" "mBoardSize s1 = mBoardSize s"
    by (simp_all add: processFrame_boardType)
  let ?n = "(if mBoardType s = DoubleAcirclesGrid then 2 else 1)
            * (nat (width (mBoardSize s)) * nat (height (mBoardSize s)))"
  from Cons.IH [OF rest] obtain ips ops ccs cis where
    ih: "imagePoints (mCalibdata s') = imagePoints (mCalibdata s1) @ ips"
      "objectPoints (mCalibdata s') = objectPoints (mCalibdata s1) @ ops"
      "allCharucoCorners (mCalibdata s') = allCharucoCorners (mCalibdata s1) @ ccs"
      "allCharucoIds (mCalibdata s') = allCharucoIds (mCalibdata s1) @ cis"
      "length ips = length ops" "length ccs = length cis"
      "\<forall>pts \<in> set ops. length pts = ?n"
      "mBoardType s = chAruco \<longrightarrow> ips = []"
      "mBoardType s \<noteq> chAruco \<longrightarrow> ccs = []"
    unfolding board by blast
  from one show ?case
  proof (cases rule: processFrame_dataset)
    case same
    with ih show ?thesis by auto
  next
    case (saved s2)
    show ?thesis
    proof (cases "mBoardType s = chAruco")
      case True
      with saved have "mBoardType s2 = chAruco" by simp
      from saveFrameData_charuco [OF this] saved(1,2) have
        "allCharucoCorners (mCalibdata s1)
          = allCharucoCorners (mCalibdata s) @ [mCurrentCharucoCorners s2]"
        "allCharucoIds (mCalibdata s1) = allCharucoIds (mCalibdata s) @ [mCurrentCharucoIds s2]"
        "imagePoints (mCalibdata s1) = imagePoints (mCalibdata s)"
        "objectPoints (mCalibdata s1) = objectPoints (mCalibdata s)"
        by simp_all
      with ih True show ?thesis
        by (intro exI [of _ ips] exI [of _ ops]
              exI [of _ "mCurrentCharucoCorners s2 # ccs"]
              exI [of _ "mCurrentCharucoIds s2 # cis"]) simp
    next
      case False
      with saved have "mBoardType s2 \<noteq> chAruco" by simp
      from saveFrameData_geometric [OF this] saved obtain pts where
        "imagePoints (mCalibdata s1) = imagePoints (mCalibdata s) @ [mCurrentImagePoints s2]"
        "objectPoints (mCalibdata s1) = objectPoints (mCalibdata s) @ [pts]"
        "length pts = ?n"
        "allCharucoCorners (mCalibdata s1) = allCharucoCorners (mCalibdata s)"
        "allCharucoIds (mCalibdata s1) = allCharucoIds (mCalibdata s)"
        by auto
      with ih False show ?thesis
        by (intro exI [of _ "mCurrentImagePoints s2 # ips"] exI [of _ "pts # ops"]
              exI [of _ ccs] exI [of _ cis]) simp
    qed
  qed
qed

text \<open>
  C10. Over any sequence of \<open>processFrame\<close> calls: \<open>imagePoints\<close> and
  \<open>objectPoints\<close> grow by the same number of entries, so they have equal length
  whenever they had at the start (as in a fresh dataset), and so do
  \<open>allCharucoCorners\<close> and \<open>allCharucoIds\<close>; every \<open>objectPoints\<close> entry
  appended holds \<open>width * height\<close> points, twice as many for a
  DoubleAsymmetricCircleGrid; a marker-board processor leaves the geometric sequences
  untouched and a geometric one leaves the marker sequences untouched, so no capture
  appends to both.
\<close>

theorem dataset_invariants:
  assumes "processFrames s frames = Inr s'"
  shows "(length (imagePoints (mCalibdata s)) = length (objectPoints (mCalibdata s)) \<longrightarrow>
        length (imagePoints (mCalibdata s')) = length (objectPoints (mCalibdata s')))
    \<and> (length (allCharucoCorners (mCalibdata s)) = length (allCharucoIds (mCalibdata s)) \<longrightarrow>
        length (allCharucoCorners (mCalibdata s')) = length (allCharucoIds (mCalibdata s')))
    \<and> (0 \<le> width (mBoardSize s) \<and> 0 \<le> height (mBoardSize s) \<longrightarrow>
        (\<forall>pts \<in> set (drop (length (objectPoints (mCalibdata s)))
                          (objectPoints (mCalibdata s'))).
           int (length pts) =
             (if mBoardType s = DoubleAcirclesGrid
              then 2 * (width (mBoardSize s) * height (mBoardSize s))
              else width (mBoardSize s) * height (mBoardSize s))))
    \<and> (mBoardType s = chAruco \<longrightarrow>
        imagePoints (mCalibdata s') = imagePoints (mCalibdata s)
        \<and> objectPoints (mCalibdata s') = objectPoints (mCalibdata s))
    \<and> (mBoardType s \<noteq> chAruco \<longrightarrow>
        allCharucoCorners (mCalibdata s') = allCharucoCorners (mCalibdata s)
        \<and> allCharucoIds (mCalibdata s') = allCharucoIds (mCalibdata s))"
proof -
  let ?W = "width (mBoardSize s)" and ?H = "height (mBoardSize s)"
  from processFrames_dataset [OF assms] obtain ips ops ccs cis where
    d: "imagePoints (mCalibdata s') = imagePoints (mCalibdata s) @ ips"
      "objectPoints (mCalibdata s') = objectPoints (mCalibdata s) @ ops"
      "allCharucoCorners (mCalibdata s') = allCharucoCorners (mCalibdata s) @ ccs"
      "allCharucoIds (mCalibdata s') = allCharucoIds (mCalibdata s) @ cis" and
    len: "length ips = length ops" "length ccs = length cis" and
    pts: "\<forall>pts \<in> set ops. length pts =
          (if mBoardType s = DoubleAcirclesGrid then 2 else 1) * (nat ?W * nat ?H)" and
    ch: "mBoardType s = chAruco \<longrightarrow> ips = []" and
    geo: "mBoardType s \<noteq> chAruco \<longrightarrow> ccs = []"
    by blast
  have 1: "length (imagePoints (mCalibdata s')) = length (objectPoints (mCalibdata s'))"
    if "length (imagePoints (mCalibdata s)) = length (objectPoints (mCalibdata s))"
    using that d len by simp
  have 2: "length (allCharucoCorners (mCalibdata s')) = length (allCharucoIds (mCalibdata s'))"
    if "length (allCharucoCorners (mCalibdata s)) = length (allCharucoIds (mCalibdata s))"
    using that d len by simp
  have 3: "int (length p) =
      (if mBoardType s = DoubleAcirclesGrid then 2 * (?W * ?H) else ?W * ?H)"
    if nonneg: "0 \<le> ?W \<and> 0 \<le> ?H"
      and p: "p \<in> set (drop (length (objectPoints (mCalibdata s))) (objectPoints (mCalibdata s')))"
    for p
  proof -
    from p d have "p \<in> set ops" by simp
    with pts have "length p =
        (if mBoardType s = DoubleAcirclesGrid then 2 else 1) * (nat ?W * nat ?H)"
      by blast
    moreover from nonneg have "int (nat ?W * nat ?H) = ?W * ?H"
      by simp
    ultimately show ?thesis
      by (simp split: if_splits)
  qed
  have 4: "imagePoints (mCalibdata s') = imagePoints (mCalibdata s)
        \<and> objectPoints (mCalibdata s') = objectPoints (mCalibdata s)"
    if "mBoardType s = chAruco"
    using that d len ch by simp
  have 5: "allCharucoCorners (mCalibdata s') = allCharucoCorners (mCalibdata s)
        \<and> allCharucoIds (mCalibdata s') = allCharucoIds (mCalibdata s)"
    if "mBoardType s \<noteq> chAruco"
    using that d len geo by simp
  from 1 2 3 4 5 show ?thesis by blast
qed

theorem dataset_invariants_witness:
  "processFrames (CalibProcessor_new emptyData Chessboard \<lparr>width = 6, height = 9\<rparr>)
      (replicate 30 (chessboardAt [(10, 10), (20, 10)]))
    = Inr ((saveFrameData
             ((CalibProcessor_new emptyData Chessboard \<lparr>width = 6, height = 9\<rparr>)
                \<lparr>mTemplateLocations := replicate 30 (10, 10),
                  mCurrentImagePoints := [(10, 10), (20, 10)]\<rparr>))
           \<lparr>mCapuredFrames := 1, mTemplateLocations := replicate 30 (0, 0)\<rparr>)
   \<and> length (imagePoints (mCalibdata ((saveFrameData
             ((CalibProcessor_new emptyData Chessboard \<lparr>width = 6, height = 9\<rparr>)
                \<lparr>mTemplateLocations := replicate 30 (10, 10),
                  mCurrentImagePoints := [(10, 10), (20, 10)]\<rparr>))
           \<lparr>mCapuredFrames := 1, mTemplateLocations := replicate 30 (0, 0)\<rparr>))) = 1
   \<and> map length (objectPoints (mCalibdata ((saveFrameData
             ((CalibProcessor_new emptyData Chessboard \<lparr>width = 6, height = 9\<rparr>)
                \<lparr>mTemplateLocations := replicate 30 (10, 10),
                  mCurrentImagePoints := [(10, 10), (20, 10)]\<rparr>))
           \<lparr>mCapuredFrames := 1, mTemplateLocations := replicate 30 (0, 0)\<rparr>))) = [54]"
proof -
  let ?s = "CalibProcessor_new emptyData Chessboard \<lparr>width = 6, height = 9\<rparr>"
  let ?s' = "(saveFrameData
             (?s\<lparr>mTemplateLocations := replicate 30 (10, 10),
                  mCurrentImagePoints := [(10, 10), (20, 10)]\<rparr>))
           \<lparr>mCapuredFrames := 1, mTemplateLocations := replicate 30 (0, 0)\<rparr>"
  have run: "processFrames ?s (replicate 30 (chessboardAt [(10, 10), (20, 10)])) = Inr ?s'"
    by (simp add: eval_defs cv_norm_near numeral_eq_Suc saveFrameData_def)
  have start: "mCalibdata ?s = emptyData" "mBoardType ?s = Chessboard"
    "width (mBoardSize ?s) = 6" "height (mBoardSize ?s) = 9"
    by (simp_all add: CalibProcessor_new_def)
  have ip: "imagePoints (mCalibdata ?s') = [[(10, 10), (20, 10)]]"
    by (simp add: saveFrameData_def CalibProcessor_new_def emptyData_def)
  have op: "objectPoints (mCalibdata ?s')
      = [rowLoop chessboardPoint \<lparr>width = 6, height = 9\<rparr> 0 []]"
    by (simp add: saveFrameData_def CalibProcessor_new_def emptyData_def)
  from dataset_invariants [OF run] start
  have "length (imagePoints (mCalibdata ?s')) = length (objectPoints (mCalibdata ?s'))"
    and "\<forall>pts \<in> set (drop (length (objectPoints emptyData)) (objectPoints (mCalibdata ?s'))).
           int (length pts) = 6 * 9"
    by (simp_all add: emptyData_def)
  with op ip have "length (imagePoints (mCalibdata ?s')) = 1"
    and "map length (objectPoints (mCalibdata ?s')) = [54]"
    by (simp_all add: emptyData_def)
  with run show ?thesis by blast
qed

end
